theory Spec2Isabelle
  imports Main
begin

section \<open>Conventions of the embedding\<close>

text \<open>
  The program is \<^verbatim>\<open>src/scrape.js\<close>: a retry wrapper, a cookie-header parser, a webhook
  client and the \<^verbatim>\<open>main\<close> pipeline that drives a browser.

  \<^item> JavaScript strings are HOL strings; a character stands for one code unit below 256.
  \<^item> JavaScript numbers that the program uses as counters, delays, heights and HTTP
    statuses are \<open>nat\<close> or \<open>int\<close> (no rounding: the values stay far below \<open>2^53\<close>).
  \<^item> A thrown value is an \<open>Error\<close> object with a name and a message, as every
    \<^verbatim>\<open>throw\<close> of the program and every rejection of its browser library is. A promise
    rejected with \<^verbatim>\<open>null\<close> or \<^verbatim>\<open>undefined\<close> is outside the model.
  \<^item> An asynchronous function is a state transformer over the outside world that
    returns \<open>Inl\<close> of the thrown error or \<open>Inr\<close> of its value, under \<open>option\<close>:
    \<open>None\<close> is a call that never returns.
  \<^item> \<^verbatim>\<open>console.log\<close> and \<^verbatim>\<open>console.error\<close> in \<^verbatim>\<open>main\<close> and \<^verbatim>\<open>sendToWebhook\<close> have no
    effect on the control flow and are left out; the log line and the timer of
    \<^verbatim>\<open>retry\<close> are kept as events.
  \<^item> As it stands, the file does not parse: line 174, which computes the clicks of a
    card, opens \<^verbatim>\<open>parseInt(\<close> and never closes it, so loading the module raises a
    \<^verbatim>\<open>SyntaxError\<close> and nothing runs. Every other line is embedded as written. For
    line 174 the embedding closes the parenthesis; the section on the record
    extractor quotes the line as it is, names the two places where the parenthesis
    can be closed and shows that both give the same clicks. No definition outside
    \<open>card_clicks\<close> depends on that line.
\<close>

datatype error = JsError (err_name: string) (message: string)

section \<open>retry\<close>

text \<open>
  \<^verbatim>\<open>
  async function retry(fn, maxRetries = 3, delay = 1000) {
    for (let i = 0; i < maxRetries; i++) {
      try {
        return await fn();
      } catch (error) {
        console.log(`Attempt ${i + 1} failed:`, error.message);
        if (i === maxRetries - 1) throw error;
        await new Promise(resolve => setTimeout(resolve, delay * (i + 1)));
      }
    }
  }
  \<close>
  The model returns, next to the outcome and the world after the last call of \<open>fn\<close>,
  the events of the loop in order: \<open>Invoke k\<close> for the \<open>k\<close>-th call of \<open>fn\<close>,
  \<open>LogFailed k m\<close> for the log line of a failed attempt and \<open>Sleep ms\<close> for the timer.
  A loop that runs to its end returns \<^verbatim>\<open>undefined\<close>: \<open>Inr None\<close>.
\<close>

datatype retry_event = is_Invoke: Invoke nat | LogFailed nat string | is_Sleep: Sleep int

function retry_from ::
  "('w \<Rightarrow> ((error + 'a) \<times> 'w) option) \<Rightarrow> int \<Rightarrow> int \<Rightarrow> nat \<Rightarrow> 'w
     \<Rightarrow> ((error + 'a option) \<times> 'w \<times> retry_event list) option" where
  "retry_from fn maxRetries delay i w =
     (if int i < maxRetries then
        (case fn w of
           None \<Rightarrow> None
         | Some (Inr v, w') \<Rightarrow> Some (Inr (Some v), w', [Invoke (Suc i)])
         | Some (Inl e, w') \<Rightarrow>
             if int i = maxRetries - 1
             then Some (Inl e, w', [Invoke (Suc i), LogFailed (Suc i) (message e)])
             else (case retry_from fn maxRetries delay (Suc i) w' of
                     None \<Rightarrow> None
                   | Some (r, w'', evs) \<Rightarrow>
                       Some (r, w'', [Invoke (Suc i), LogFailed (Suc i) (message e),
                                      Sleep (delay * int (Suc i))] @ evs)))
      else Some (Inr None, w, []))"
  by pat_completeness auto
termination
  by (relation "measure (\<lambda>(fn, maxRetries, delay, i, w). nat (maxRetries - int i))") auto

definition retry ::
  "('w \<Rightarrow> ((error + 'a) \<times> 'w) option) \<Rightarrow> int \<Rightarrow> int \<Rightarrow> 'w
     \<Rightarrow> ((error + 'a option) \<times> 'w \<times> retry_event list) option" where
  "retry fn maxRetries delay w = retry_from fn maxRetries delay 0 w"

text \<open>The world in which the \<open>(k+1)\<close>-th attempt of \<open>fn\<close> starts, when the loop began in \<open>w\<close>.\<close>

fun after_attempts :: "('w \<Rightarrow> ((error + 'a) \<times> 'w) option) \<Rightarrow> nat \<Rightarrow> 'w \<Rightarrow> 'w" where
  "after_attempts fn 0 w = w"
| "after_attempts fn (Suc k) w =
     (case fn w of None \<Rightarrow> w | Some (r, w') \<Rightarrow> after_attempts fn k w')"

text \<open>The events between the \<open>k\<close>-th call of \<open>fn\<close> and the next call, and the timers among them.\<close>

definition after_invoke :: "nat \<Rightarrow> retry_event list \<Rightarrow> retry_event list" where
  "after_invoke k evs =
     takeWhile (\<lambda>ev. \<not> is_Invoke ev) (tl (dropWhile (\<lambda>ev. ev \<noteq> Invoke k) evs))"

fun sleeps :: "retry_event list \<Rightarrow> int list" where
  "sleeps [] = []"
| "sleeps (Sleep ms # evs) = ms # sleeps evs"
| "sleeps (ev # evs) = sleeps evs"

definition delays_after :: "nat \<Rightarrow> retry_event list \<Rightarrow> int list" where
  "delays_after k evs = sleeps (after_invoke k evs)"

section \<open>Strings\<close>

text \<open>
  \<open>is_space\<close> is the white space of \<^verbatim>\<open>String.prototype.trim\<close> and of the regular
  expression class \<^verbatim>\<open>\s\<close> among the code units below 256; \<open>is_digit\<close> is \<^verbatim>\<open>\d\<close>.
\<close>

definition is_space :: "char \<Rightarrow> bool" where
  "is_space c \<longleftrightarrow>
     c \<in> set [CHR 0x09, CHR 0x0A, CHR 0x0B, CHR 0x0C, CHR 0x0D, CHR 0x20, CHR 0xA0]"

definition is_digit :: "char \<Rightarrow> bool" where
  "is_digit c \<longleftrightarrow> c \<in> set ''0123456789''"

definition trim :: "string \<Rightarrow> string" where
  "trim s = rev (dropWhile is_space (rev (dropWhile is_space s)))"

text \<open>\<^verbatim>\<open>s.split(c)\<close> for a one-character separator: never empty, \<open>[[]]\<close> for the empty string.\<close>

fun split_on :: "char \<Rightarrow> string \<Rightarrow> string list" where
  "split_on c [] = [[]]"
| "split_on c (x # xs) =
     (if x = c then [] # split_on c xs
      else (case split_on c xs of [] \<Rightarrow> [[x]] | p # ps \<Rightarrow> (x # p) # ps))"

definition starts_with :: "string \<Rightarrow> string \<Rightarrow> bool" where
  "starts_with p s \<longleftrightarrow> take (length p) s = p"

text \<open>\<^verbatim>\<open>s.includes(sub)\<close>.\<close>

fun js_includes :: "string \<Rightarrow> string \<Rightarrow> bool" where
  "js_includes sub [] = (sub = [])"
| "js_includes sub (x # xs) = (starts_with sub (x # xs) \<or> js_includes sub xs)"

text \<open>The decimal rendering of a number in a template literal.\<close>

fun show_nat :: "nat \<Rightarrow> string" where
  "show_nat n =
     (if n < 10 then [''0123456789'' ! n]
      else show_nat (n div 10) @ [''0123456789'' ! (n mod 10)])"

declare show_nat.simps [simp del]

section \<open>parseCookies\<close>

text \<open>
  \<^verbatim>\<open>
  function parseCookies(cookieString) {
    const cookies = [];
    const pairs = cookieString.split(';');
    for (const pair of pairs) {
      const [name, value] = pair.trim().split('=');
      if (name && value) {
        cookies.push({ name: name.trim(), value: value.trim(), domain: '.linktr.ee',
                       path: '/', httpOnly: false, secure: true, sameSite: 'Lax' });
      }
    }
    return cookies;
  }
  \<close>
  The destructuring \<^verbatim>\<open>[name, value]\<close> takes the first two pieces of the split and
  drops the others; \<^verbatim>\<open>value\<close> is \<^verbatim>\<open>undefined\<close> (falsy) when there is one piece only.
\<close>

record cookie =
  c_name :: string
  c_value :: string
  c_domain :: string
  c_path :: string
  c_httpOnly :: bool
  c_secure :: bool
  c_sameSite :: string

definition make_cookie :: "string \<Rightarrow> string \<Rightarrow> cookie" where
  "make_cookie n v =
     \<lparr>c_name = trim n, c_value = trim v, c_domain = ''.linktr.ee'', c_path = ''/'',
      c_httpOnly = False, c_secure = True, c_sameSite = ''Lax''\<rparr>"

definition cookie_of_pair :: "string \<Rightarrow> cookie list" where
  "cookie_of_pair pair =
     (case split_on CHR ''='' (trim pair) of
        n # v # rest \<Rightarrow> if n \<noteq> [] \<and> v \<noteq> [] then [make_cookie n v] else []
      | _ \<Rightarrow> [])"

definition parseCookies :: "string \<Rightarrow> cookie list" where
  "parseCookies cookieString = concat (map cookie_of_pair (split_on CHR '';'' cookieString))"

section \<open>The document and its selectors\<close>

text \<open>
  The extractor runs inside the page, over the DOM. An element has a tag name (lower
  case, as \<^verbatim>\<open>localName\<close>), its attributes (lower-case names; the first occurrence
  of a name counts), its \<^verbatim>\<open>value\<close> property (\<open>None\<close> for \<^verbatim>\<open>undefined\<close>: only form
  controls have one) and its child nodes; a text node has its text.
\<close>

datatype node =
    Element (tag: string) (attrs: "(string \<times> string) list") (value_prop: "string option")
      (children: "node list")
  | Text string

fun textContent :: "node \<Rightarrow> string" where
  "textContent (Text s) = s"
| "textContent (Element t as v ks) = concat (map textContent ks)"

text \<open>The elements of a subtree in document order, its root first.\<close>

fun subtree :: "node \<Rightarrow> node list" where
  "subtree (Text s) = []"
| "subtree (Element t as v ks) = Element t as v ks # concat (map subtree ks)"

fun descendants :: "node \<Rightarrow> node list" where
  "descendants (Text s) = []"
| "descendants (Element t as v ks) = concat (map subtree ks)"

fun attr :: "string \<Rightarrow> node \<Rightarrow> string option" where
  "attr a (Text s) = None"
| "attr a (Element t as v ks) = map_of as a"

fun element_value :: "node \<Rightarrow> string option" where
  "element_value (Text s) = None"
| "element_value (Element t as v ks) = v"

fun has_tag :: "string \<Rightarrow> node \<Rightarrow> bool" where
  "has_tag t (Text s) = False"
| "has_tag t (Element t' as v ks) = (t' = t)"

text \<open>
  The selectors the program uses: a type selector \<^verbatim>\<open>h3\<close>, the attribute selectors
  \<^verbatim>\<open>[a="v"]\<close>, \<^verbatim>\<open>[a*="v"]\<close> and \<^verbatim>\<open>[a^="v"]\<close>, and a class selector \<^verbatim>\<open>.c\<close>. A compound
  selector (\<^verbatim>\<open>input[aria-label="Title"]\<close>) is the list of its parts, all of which must
  match; a selector list (separated by commas) matches an element that one of its
  compound selectors matches.
\<close>

datatype simple_selector =
    Tag string
  | Attr_eq string string
  | Attr_contains string string
  | Attr_prefix string string
  | Class string

text \<open>The tokens of a \<^verbatim>\<open>class\<close> attribute: split at ASCII white space.\<close>

definition is_ascii_space :: "char \<Rightarrow> bool" where
  "is_ascii_space c \<longleftrightarrow> c \<in> set [CHR 0x09, CHR 0x0A, CHR 0x0C, CHR 0x0D, CHR 0x20]"

fun tokens_from :: "string \<Rightarrow> string \<Rightarrow> string list" where
  "tokens_from cur [] = (if cur = [] then [] else [cur])"
| "tokens_from cur (c # cs) =
     (if is_ascii_space c then (if cur = [] then tokens_from [] cs else cur # tokens_from [] cs)
      else tokens_from (cur @ [c]) cs)"

definition class_tokens :: "string \<Rightarrow> string list" where
  "class_tokens s = tokens_from [] s"

fun matches_simple :: "simple_selector \<Rightarrow> node \<Rightarrow> bool" where
  "matches_simple (Tag t) e = has_tag t e"
| "matches_simple (Attr_eq a v) e = (attr a e = Some v)"
| "matches_simple (Attr_contains a v) e =
     (case attr a e of None \<Rightarrow> False | Some x \<Rightarrow> v \<noteq> [] \<and> js_includes v x)"
| "matches_simple (Attr_prefix a v) e =
     (case attr a e of None \<Rightarrow> False | Some x \<Rightarrow> v \<noteq> [] \<and> starts_with v x)"
| "matches_simple (Class c) e =
     (case attr ''class'' e of None \<Rightarrow> False | Some x \<Rightarrow> c \<in> set (class_tokens x))"

definition matches_compound :: "simple_selector list \<Rightarrow> node \<Rightarrow> bool" where
  "matches_compound parts e \<longleftrightarrow> list_all (\<lambda>p. matches_simple p e) parts"

definition matches :: "simple_selector list list \<Rightarrow> node \<Rightarrow> bool" where
  "matches selectors e \<longleftrightarrow> list_ex (\<lambda>c. matches_compound c e) selectors"

text \<open>
  \<^verbatim>\<open>document.querySelectorAll\<close> ranges over all elements of the document;
  \<^verbatim>\<open>card.querySelectorAll\<close> and \<^verbatim>\<open>card.querySelector\<close> over the descendants of the card.
  The result is in document order.
\<close>

definition document_querySelectorAll :: "simple_selector list list \<Rightarrow> node \<Rightarrow> node list" where
  "document_querySelectorAll selectors root = filter (matches selectors) (subtree root)"

definition querySelector :: "simple_selector list list \<Rightarrow> node \<Rightarrow> node option" where
  "querySelector selectors e = find (matches selectors) (descendants e)"

section \<open>The record extractor\<close>

text \<open>
  \<^verbatim>\<open>
  const cards = document.querySelectorAll(
    '[data-testid="link-card"], .link-card, [class*="link-card"]');
  const links = [];
  for (const card of cards) {
    try {
      const clickElement =
        card.querySelector('[class*="click"], [class*="Click"], [data-testid*="click"]') ||
        Array.from(card.querySelectorAll('*')).find(el =>
          el.textContent && /\d+\s+clicks?/.test(el.textContent));
      const clicks = clickElement ? parseInt(clickElement.textContent.match(/(\d+)/)?.[1] || 0 : 0;
      const titleElement =
        card.querySelector('input[aria-label="Title"], [data-testid="link-title"], h3, textarea') ||
        card.querySelector('[class*="title"], [class*="Title"]');
      const title = titleElement?.value || titleElement?.textContent?.trim() || '';
      const urlElement = card.querySelector('a[href^="http"]');
      const url = urlElement?.href || '';
      if (title && url) { links.push({ title, url, clicks }); }
    } catch (error) { console.log('Error extracting link data:', error); }
  }
  return links;
  \<close>
  No step of the loop body throws on a DOM of this shape, so the \<^verbatim>\<open>catch\<close> has no
  branch in the model.

  The line of \<^verbatim>\<open>clicks\<close> (line 174) is quoted as the file has it: the parenthesis
  that \<^verbatim>\<open>parseInt(\<close> opens is not closed, and the line is a syntax error. The
  conditional needs its two branches, so the parenthesis can only be closed inside the
  first branch, at one of two places:
  \<^item> after \<^verbatim>\<open>|| 0\<close>: \<^verbatim>\<open>parseInt(clickElement.textContent.match(/(\d+)/)?.[1] || 0)\<close>, which
    \<open>card_clicks\<close> embeds;
  \<^item> after \<^verbatim>\<open>?.[1]\<close>: \<^verbatim>\<open>parseInt(clickElement.textContent.match(/(\d+)/)?.[1]) || 0\<close>, which
    \<open>card_clicks_alt\<close> embeds (\<^verbatim>\<open>parseInt(undefined)\<close> is \<^verbatim>\<open>NaN\<close>, and \<^verbatim>\<open>NaN || 0\<close> and
    \<^verbatim>\<open>0 || 0\<close> are 0).
\<close>

definition card_selector :: "simple_selector list list" where
  "card_selector =
     [[Attr_eq ''data-testid'' ''link-card''], [Class ''link-card''],
      [Attr_contains ''class'' ''link-card'']]"

definition click_selector :: "simple_selector list list" where
  "click_selector =
     [[Attr_contains ''class'' ''click''], [Attr_contains ''class'' ''Click''],
      [Attr_contains ''data-testid'' ''click'']]"

definition title_selector :: "simple_selector list list" where
  "title_selector =
     [[Tag ''input'', Attr_eq ''aria-label'' ''Title''], [Attr_eq ''data-testid'' ''link-title''],
      [Tag ''h3''], [Tag ''textarea'']]"

definition title_class_selector :: "simple_selector list list" where
  "title_class_selector = [[Attr_contains ''class'' ''title''], [Attr_contains ''class'' ''Title'']]"

definition url_selector :: "simple_selector list list" where
  "url_selector = [[Tag ''a'', Attr_prefix ''href'' ''http'']]"

definition cards :: "node \<Rightarrow> node list" where
  "cards doc = document_querySelectorAll card_selector doc"

text \<open>
  \<^verbatim>\<open>/\d+\s+clicks?/.test(s)\<close>: somewhere in \<open>s\<close> a digit is followed by one or more
  white-space characters and then by \<^verbatim>\<open>click\<close> (the optional \<^verbatim>\<open>s\<close> decides nothing).
\<close>

fun clicks_pattern :: "string \<Rightarrow> bool" where
  "clicks_pattern [] = False"
| "clicks_pattern (c # cs) =
     ((is_digit c \<and> dropWhile is_space cs \<noteq> cs \<and> starts_with ''click'' (dropWhile is_space cs))
      \<or> clicks_pattern cs)"

text \<open>\<^verbatim>\<open>s.match(/(\d+)/)?.[1]\<close>: the leftmost, longest run of digits; empty when there is none.\<close>

definition first_digit_group :: "string \<Rightarrow> string" where
  "first_digit_group s = takeWhile is_digit (dropWhile (\<lambda>c. \<not> is_digit c) s)"

definition digit_value :: "char \<Rightarrow> nat" where
  "digit_value c = of_char c - 48"

text \<open>
  \<^verbatim>\<open>parseInt\<close> on a non-empty string of decimal digits: its decimal value (leading
  zeros count for nothing). The value is exact here. JavaScript returns the nearest
  double, which is the same number for a string of at most 15 digits (a value below
  \<open>10^15\<close>, and so below \<open>2^53\<close>) and may differ for a longer one; the properties of
  the clicks below are stated for groups of at most 15 digits.
\<close>

definition parseInt :: "string \<Rightarrow> nat" where
  "parseInt ds = foldl (\<lambda>acc c. 10 * acc + digit_value c) 0 ds"

text \<open>
  The number that a list of decimal digits denotes, the least significant digit first:
  the reference for what \<open>parseInt\<close> returns.
\<close>

fun decimal :: "nat list \<Rightarrow> nat" where
  "decimal [] = 0"
| "decimal (d # ds) = d + 10 * decimal ds"

definition clickElement :: "node \<Rightarrow> node option" where
  "clickElement crd =
     (case querySelector click_selector crd of
        Some el \<Rightarrow> Some el
      | None \<Rightarrow>
          find (\<lambda>el. textContent el \<noteq> [] \<and> clicks_pattern (textContent el)) (descendants crd))"

text \<open>
  Line 174 with the parenthesis closed after \<^verbatim>\<open>|| 0\<close>: without a match the argument is
  the number 0, and \<^verbatim>\<open>parseInt(0)\<close> is 0; with a match it is the group, a non-empty
  string and so truthy.
\<close>

definition card_clicks :: "node \<Rightarrow> nat" where
  "card_clicks crd =
     (case clickElement crd of
        None \<Rightarrow> 0
      | Some el \<Rightarrow>
          (let g = first_digit_group (textContent el) in if g = [] then 0 else parseInt g))"

text \<open>
  Line 174 with the parenthesis closed after \<^verbatim>\<open>?.[1]\<close>: \<open>None\<close> stands for \<^verbatim>\<open>NaN\<close>, the
  value of \<^verbatim>\<open>parseInt(undefined)\<close>; \<^verbatim>\<open>|| 0\<close> turns \<^verbatim>\<open>NaN\<close> and 0 into 0.
\<close>

definition parseInt_or_NaN :: "string \<Rightarrow> nat option" where
  "parseInt_or_NaN g = (if g = [] then None else Some (parseInt g))"

definition card_clicks_alt :: "node \<Rightarrow> nat" where
  "card_clicks_alt crd =
     (case clickElement crd of
        None \<Rightarrow> 0
      | Some el \<Rightarrow>
          (case parseInt_or_NaN (first_digit_group (textContent el)) of
             None \<Rightarrow> 0
           | Some n \<Rightarrow> if n = 0 then 0 else n))"

definition titleElement :: "node \<Rightarrow> node option" where
  "titleElement crd =
     (case querySelector title_selector crd of
        Some el \<Rightarrow> Some el
      | None \<Rightarrow> querySelector title_class_selector crd)"

definition card_title :: "node \<Rightarrow> string" where
  "card_title crd =
     (case titleElement crd of
        None \<Rightarrow> []
      | Some el \<Rightarrow>
          (case element_value el of
             Some v \<Rightarrow> if v \<noteq> [] then v else trim (textContent el)
           | None \<Rightarrow> trim (textContent el)))"

text \<open>
  \<^verbatim>\<open>urlElement.href\<close> is the \<^verbatim>\<open>href\<close> attribute resolved by the browser against the
  document's base address; \<open>resolve\<close> stands for that.
\<close>

definition card_url :: "(string \<Rightarrow> string) \<Rightarrow> node \<Rightarrow> string" where
  "card_url resolve crd =
     (case querySelector url_selector crd of
        None \<Rightarrow> []
      | Some a \<Rightarrow> (case attr ''href'' a of None \<Rightarrow> [] | Some h \<Rightarrow> resolve h))"

record link =
  title :: string
  url :: string
  clicks :: nat

definition extract_card :: "(string \<Rightarrow> string) \<Rightarrow> node \<Rightarrow> link list" where
  "extract_card resolve crd =
     (let n = card_clicks crd; t = card_title crd; u = card_url resolve crd
      in if t \<noteq> [] \<and> u \<noteq> [] then [\<lparr>title = t, url = u, clicks = n\<rparr>] else [])"

definition extract_links :: "(string \<Rightarrow> string) \<Rightarrow> node \<Rightarrow> link list" where
  "extract_links resolve doc = concat (map (extract_card resolve) (cards doc))"

section \<open>The host: browser, network and clock\<close>

text \<open>
  Everything \<^verbatim>\<open>main\<close> awaits is a call into the browser library or \<^verbatim>\<open>fetch\<close>. A host
  over a world \<open>'w\<close> gives each call as a function of the world that returns the
  error or the value, and the next world. \<open>page_url\<close> (\<^verbatim>\<open>page.url()\<close>) and
  \<open>getJSTDate\<close> read the world and change nothing; \<open>JSON_stringify\<close> and \<open>href_prop\<close>
  compute. The configuration is the four variables of the environment, \<open>None\<close> for a
  variable that is not set.
\<close>

record config =
  LINKTREE_EMAIL :: "string option"
  LINKTREE_PASSWORD :: "string option"
  LT_COOKIE :: "string option"
  WEBHOOK_URL :: "string option"

text \<open>The truth value JavaScript gives a variable of the environment.\<close>

fun truthy :: "string option \<Rightarrow> bool" where
  "truthy None = False"
| "truthy (Some s) = (s \<noteq> [])"

record webhookData =
  dateISO :: string
  items :: "link list"

record request =
  req_url :: "string option"
  req_method :: string
  req_headers :: "(string \<times> string) list"
  req_body :: string

text \<open>
  A response: its status, and what \<^verbatim>\<open>await response.text()\<close> gives (reading the body
  can fail). \<^verbatim>\<open>response.ok\<close> is a status between 200 and 299.
\<close>

record response =
  status :: nat
  body_text :: "error + string"

definition ok :: "response \<Rightarrow> bool" where
  "ok r \<longleftrightarrow> 200 \<le> status r \<and> status r \<le> 299"

record 'w host =
  launch :: "'w \<Rightarrow> (error + unit) \<times> 'w"
  newContext :: "'w \<Rightarrow> (error + unit) \<times> 'w"
  newPage :: "'w \<Rightarrow> (error + unit) \<times> 'w"
  addCookies :: "cookie list \<Rightarrow> 'w \<Rightarrow> (error + unit) \<times> 'w"
  goto :: "string \<Rightarrow> 'w \<Rightarrow> (error + unit) \<times> 'w"
  page_url :: "'w \<Rightarrow> string"
  fill :: "string \<Rightarrow> string \<Rightarrow> 'w \<Rightarrow> (error + unit) \<times> 'w"
  click :: "string \<Rightarrow> 'w \<Rightarrow> (error + unit) \<times> 'w"
  waitForURL :: "string \<Rightarrow> 'w \<Rightarrow> (error + unit) \<times> 'w"
  scrollHeight :: "'w \<Rightarrow> (error + nat) \<times> 'w"
  scrollToBottom :: "'w \<Rightarrow> (error + unit) \<times> 'w"
  waitForTimeout :: "nat \<Rightarrow> 'w \<Rightarrow> (error + unit) \<times> 'w"
  page_document :: "'w \<Rightarrow> (error + node) \<times> 'w"
  href_prop :: "string \<Rightarrow> string"
  fetch :: "request \<Rightarrow> 'w \<Rightarrow> (error + response) \<times> 'w"
  close :: "'w \<Rightarrow> (error + unit) \<times> 'w"
  getJSTDate :: "'w \<Rightarrow> string"
  JSON_stringify :: "webhookData \<Rightarrow> string"

text \<open>The calls of a run, in order. A call is recorded whether it fails or not.\<close>

datatype event =
    Launch | NewContext | NewPage | AddCookies "cookie list" | Goto string
  | Fill string string | Click string | WaitForURL string
  | ScrollHeight | ScrollToBottom | WaitForTimeout nat
  | Evaluate | Fetch request | Close

type_synonym 'w run = "'w \<times> event list"

type_synonym ('w, 'a) async = "'w run \<Rightarrow> ((error + 'a) \<times> 'w run) option"

definition call :: "event \<Rightarrow> ('w \<Rightarrow> (error + 'a) \<times> 'w) \<Rightarrow> ('w, 'a) async" where
  "call ev op s =
     (case s of (w, tr) \<Rightarrow> (case op w of (r, w') \<Rightarrow> Some (r, (w', tr @ [ev]))))"

text \<open>\<^verbatim>\<open>await m; ...\<close>: the rest runs when \<open>m\<close> returns a value; an error passes through.\<close>

definition andThen :: "('w, 'a) async \<Rightarrow> ('a \<Rightarrow> ('w, 'b) async) \<Rightarrow> ('w, 'b) async" where
  "andThen m f s =
     (case m s of
        None \<Rightarrow> None
      | Some (Inl e, s') \<Rightarrow> Some (Inl e, s')
      | Some (Inr v, s') \<Rightarrow> f v s')"

definition throw :: "string \<Rightarrow> ('w, 'a) async" where
  "throw msg s = Some (Inl (JsError ''Error'' msg), s)"

definition return :: "'a \<Rightarrow> ('w, 'a) async" where
  "return v s = Some (Inr v, s)"

text \<open>
  \<^verbatim>\<open>try { body } finally { fin }\<close>: \<open>fin\<close> runs on every outcome of \<open>body\<close>, and an
  error of \<open>fin\<close> replaces the outcome.
\<close>

definition try_finally :: "('w, 'a) async \<Rightarrow> ('w, unit) async \<Rightarrow> ('w, 'a) async" where
  "try_finally body fin s =
     (case body s of
        None \<Rightarrow> None
      | Some (r, s') \<Rightarrow>
          (case fin s' of
             None \<Rightarrow> None
           | Some (Inl e, s'') \<Rightarrow> Some (Inl e, s'')
           | Some (Inr u, s'') \<Rightarrow> Some (r, s'')))"

text \<open>
  \<^verbatim>\<open>await retry(fn)\<close> as \<^verbatim>\<open>main\<close> calls it: three attempts, a base delay of 1000 ms, the
  value dropped.
\<close>

definition await_retry :: "('w, 'a) async \<Rightarrow> ('w, unit) async" where
  "await_retry fn s =
     (case retry fn 3 1000 s of
        None \<Rightarrow> None
      | Some (Inl e, s', evs) \<Rightarrow> Some (Inl e, s')
      | Some (Inr v, s', evs) \<Rightarrow> Some (Inr (), s'))"

section \<open>sendToWebhook\<close>

text \<open>
  \<^verbatim>\<open>
  async function sendToWebhook(data) {
    try {
      const response = await fetch(WEBHOOK_URL, {
        method: 'POST',
        headers: { 'Content-Type': 'application/json' },
        body: JSON.stringify(data)
      });
      const responseText = await response.text();
      if (!response.ok) {
        throw new Error(`Webhook failed: ${response.status} ${responseText}`);
      }
      return responseText;
    } catch (error) { console.error('Webhook error:', error); throw error; }
  }
  \<close>
\<close>

definition webhook_request :: "config \<Rightarrow> 'w host \<Rightarrow> webhookData \<Rightarrow> request" where
  "webhook_request cfg api data =
     \<lparr>req_url = WEBHOOK_URL cfg, req_method = ''POST'',
      req_headers = [(''Content-Type'', ''application/json'')],
      req_body = JSON_stringify api data\<rparr>"

definition sendToWebhook :: "config \<Rightarrow> 'w host \<Rightarrow> webhookData \<Rightarrow> ('w, string) async" where
  "sendToWebhook cfg api data =
     andThen (call (Fetch (webhook_request cfg api data)) (fetch api (webhook_request cfg api data)))
       (\<lambda>resp s.
          (case body_text resp of
             Inl e \<Rightarrow> Some (Inl e, s)
           | Inr responseText \<Rightarrow>
               if \<not> ok resp
               then throw (''Webhook failed: '' @ show_nat (status resp) @ '' '' @ responseText) s
               else return responseText s))"

section \<open>main\<close>

text \<open>
  The login sequence that both authentication paths hand to \<^verbatim>\<open>retry\<close>:
  \<^verbatim>\<open>
  await page.goto('https://linktr.ee/login', { waitUntil: 'networkidle' });
  await page.fill('input[type="email"]', LINKTREE_EMAIL);
  await page.fill('input[type="password"]', LINKTREE_PASSWORD);
  await page.click('button[type="submit"]');
  await page.waitForURL('**/admin**', { timeout: 10000 });
  \<close>
\<close>

definition login_url :: string where
  "login_url = ''https://linktr.ee/login''"

definition admin_url :: string where
  "admin_url = ''https://linktr.ee/admin/links''"

definition login :: "'w host \<Rightarrow> string \<Rightarrow> string \<Rightarrow> ('w, unit) async" where
  "login api email password =
     andThen (call (Goto login_url) (goto api login_url)) (\<lambda>_.
     andThen (call (Fill ''input[type=\"email\"]'' email) (fill api ''input[type=\"email\"]'' email)) (\<lambda>_.
     andThen (call (Fill ''input[type=\"password\"]'' password)
                (fill api ''input[type=\"password\"]'' password)) (\<lambda>_.
     andThen (call (Click ''button[type=\"submit\"]'') (click api ''button[type=\"submit\"]'')) (\<lambda>_.
     call (WaitForURL ''**/admin**'') (waitForURL api ''**/admin**'')))))"

text \<open>
  The \<^verbatim>\<open>try\<close> block of the cookie path:
  \<^verbatim>\<open>
  const cookies = parseCookies(LT_COOKIE);
  await context.addCookies(cookies);
  await page.goto('https://linktr.ee/admin/links', { waitUntil: 'networkidle' });
  const currentUrl = page.url();
  if (currentUrl.includes('/login')) {
    throw new Error('Cookie authentication failed - redirected to login');
  }
  \<close>
\<close>

definition cookie_auth :: "'w host \<Rightarrow> string \<Rightarrow> ('w, unit) async" where
  "cookie_auth api cookieString =
     andThen (call (AddCookies (parseCookies cookieString))
                (addCookies api (parseCookies cookieString))) (\<lambda>_.
     andThen (call (Goto admin_url) (goto api admin_url)) (\<lambda>_ s.
       if js_includes ''/login'' (page_url api (fst s))
       then throw ''Cookie authentication failed - redirected to login'' s
       else return () s))"

text \<open>\<^verbatim>\<open>!LINKTREE_EMAIL || !LINKTREE_PASSWORD\<close>, and the login under \<^verbatim>\<open>retry\<close> otherwise.\<close>

definition login_or_throw :: "config \<Rightarrow> 'w host \<Rightarrow> string \<Rightarrow> ('w, unit) async" where
  "login_or_throw cfg api msg =
     (case (LINKTREE_EMAIL cfg, LINKTREE_PASSWORD cfg) of
        (Some email, Some password) \<Rightarrow>
          if email \<noteq> [] \<and> password \<noteq> [] then await_retry (login api email password)
          else throw msg
      | _ \<Rightarrow> throw msg)"

text \<open>
  \<^verbatim>\<open>
  if (LT_COOKIE) {
    try { ... the cookie path ... }
    catch (error) {
      if (!LINKTREE_EMAIL || !LINKTREE_PASSWORD) {
        throw new Error('Cookie authentication failed and no login credentials available');
      }
      await retry(async () => { ... login ... });
    }
  } else {
    if (!LINKTREE_EMAIL || !LINKTREE_PASSWORD) {
      throw new Error('No authentication method available');
    }
    await retry(async () => { ... login ... });
  }
  \<close>
\<close>

definition authenticate :: "config \<Rightarrow> 'w host \<Rightarrow> ('w, unit) async" where
  "authenticate cfg api s =
     (case LT_COOKIE cfg of
        Some cookieString \<Rightarrow>
          if cookieString \<noteq> [] then
            (case cookie_auth api cookieString s of
               None \<Rightarrow> None
             | Some (Inr u, s') \<Rightarrow> Some (Inr u, s')
             | Some (Inl e, s') \<Rightarrow>
                 login_or_throw cfg api
                   ''Cookie authentication failed and no login credentials available'' s')
          else login_or_throw cfg api ''No authentication method available'' s
      | None \<Rightarrow> login_or_throw cfg api ''No authentication method available'' s)"

text \<open>
  The scroll loop, inside the function handed to \<^verbatim>\<open>retry\<close>:
  \<^verbatim>\<open>
  let previousHeight = 0;
  let currentHeight = await page.evaluate(() => document.body.scrollHeight);
  while (currentHeight > previousHeight) {
    await page.evaluate(() => window.scrollTo(0, document.body.scrollHeight));
    await page.waitForTimeout(2000);
    previousHeight = currentHeight;
    currentHeight = await page.evaluate(() => document.body.scrollHeight);
  }
  \<close>
  The loop has no bound: on a page that keeps growing it does not return (\<open>None\<close>).
\<close>

partial_function (option) scroll_loop ::
  "'w host \<Rightarrow> nat \<Rightarrow> nat \<Rightarrow> 'w run \<Rightarrow> ((error + unit) \<times> 'w run) option" where
  "scroll_loop api previousHeight currentHeight s =
     (if currentHeight > previousHeight then
        (case call ScrollToBottom (scrollToBottom api) s of
           None \<Rightarrow> None
         | Some (Inl e, s1) \<Rightarrow> Some (Inl e, s1)
         | Some (Inr u, s1) \<Rightarrow>
             (case call (WaitForTimeout 2000) (waitForTimeout api 2000) s1 of
                None \<Rightarrow> None
              | Some (Inl e, s2) \<Rightarrow> Some (Inl e, s2)
              | Some (Inr u', s2) \<Rightarrow>
                  (case call ScrollHeight (scrollHeight api) s2 of
                     None \<Rightarrow> None
                   | Some (Inl e, s3) \<Rightarrow> Some (Inl e, s3)
                   | Some (Inr h, s3) \<Rightarrow> scroll_loop api currentHeight h s3)))
      else Some (Inr (), s))"

definition load_all_links :: "'w host \<Rightarrow> ('w, unit) async" where
  "load_all_links api =
     andThen (call ScrollHeight (scrollHeight api)) (\<lambda>currentHeight.
       scroll_loop api 0 currentHeight)"

text \<open>
  The body of the outer \<^verbatim>\<open>try\<close>: authenticate, load all links under \<^verbatim>\<open>retry\<close>,
  evaluate the extractor in the page, and send the batch.
\<close>

definition pipeline :: "config \<Rightarrow> 'w host \<Rightarrow> string \<Rightarrow> ('w, unit) async" where
  "pipeline cfg api today =
     andThen (authenticate cfg api) (\<lambda>_.
     andThen (await_retry (load_all_links api)) (\<lambda>_.
     andThen (call Evaluate (page_document api)) (\<lambda>doc.
     andThen (sendToWebhook cfg api
                \<lparr>dateISO = today, items = extract_links (href_prop api) doc\<rparr>) (\<lambda>_.
     return ()))))"

text \<open>
  \<^verbatim>\<open>
  async function main() {
    if (!WEBHOOK_URL) { throw new Error('Missing required environment variable: WEBHOOK_URL'); }
    const today = getJSTDate();
    const browser = await chromium.launch({ headless: true });
    const context = await browser.newContext({ userAgent: ... });
    const page = await context.newPage();
    try { ... the pipeline ... }
    catch (error) { console.error('Scraping failed:', error); throw error; }
    finally { await browser.close(); }
  }
  \<close>
\<close>

definition main :: "config \<Rightarrow> 'w host \<Rightarrow> ('w, unit) async" where
  "main cfg api s =
     (if \<not> truthy (WEBHOOK_URL cfg)
      then throw ''Missing required environment variable: WEBHOOK_URL'' s
      else
        andThen (call Launch (launch api)) (\<lambda>_.
        andThen (call NewContext (newContext api)) (\<lambda>_.
        andThen (call NewPage (newPage api)) (\<lambda>_.
        try_finally (pipeline cfg api (getJSTDate api (fst s))) (call Close (close api))))) s)"

section \<open>A scripted host\<close>

text \<open>
  A host for scenarios. Its world is the number of height measurements taken so far:
  the \<open>n\<close>-th measurement (from 0) returns \<open>heights n\<close>. A call fails with the error
  \<open>failing\<close> gives its event, and succeeds otherwise; the page always shows the
  address \<open>landing\<close>, the document \<open>doc\<close> and the webhook answers \<open>resp\<close>.
\<close>

definition answer :: "(event \<Rightarrow> error option) \<Rightarrow> event \<Rightarrow> 'a \<Rightarrow> 'w \<Rightarrow> (error + 'a) \<times> 'w" where
  "answer failing ev v w = (case failing ev of Some e \<Rightarrow> (Inl e, w) | None \<Rightarrow> (Inr v, w))"

definition scripted_host ::
  "(event \<Rightarrow> error option) \<Rightarrow> (nat \<Rightarrow> nat) \<Rightarrow> string \<Rightarrow> node \<Rightarrow> response \<Rightarrow> nat host" where
  "scripted_host failing heights landing doc resp =
     \<lparr>launch = answer failing Launch (),
      newContext = answer failing NewContext (),
      newPage = answer failing NewPage (),
      addCookies = (\<lambda>cs. answer failing (AddCookies cs) ()),
      goto = (\<lambda>u. answer failing (Goto u) ()),
      page_url = (\<lambda>w. landing),
      fill = (\<lambda>sel v. answer failing (Fill sel v) ()),
      click = (\<lambda>sel. answer failing (Click sel) ()),
      waitForURL = (\<lambda>pat. answer failing (WaitForURL pat) ()),
      scrollHeight = (\<lambda>w. case failing ScrollHeight of
                             Some e \<Rightarrow> (Inl e, w) | None \<Rightarrow> (Inr (heights w), Suc w)),
      scrollToBottom = answer failing ScrollToBottom (),
      waitForTimeout = (\<lambda>ms. answer failing (WaitForTimeout ms) ()),
      page_document = answer failing Evaluate doc,
      href_prop = (\<lambda>h. h),
      fetch = (\<lambda>req. answer failing (Fetch req) resp),
      close = answer failing Close (),
      getJSTDate = (\<lambda>w. ''2024-05-01''),
      JSON_stringify = (\<lambda>d. ''{}'')\<rparr>"

text \<open>
  A height script from a list: the page keeps its last height once the list is used up.
  \<open>before h j\<close> is the height the \<open>j\<close>-th measurement is compared with.
\<close>

definition script :: "nat list \<Rightarrow> nat \<Rightarrow> nat" where
  "script hs i = (if hs = [] then 0 else if i < length hs then hs ! i else last hs)"

fun before :: "(nat \<Rightarrow> nat) \<Rightarrow> nat \<Rightarrow> nat" where
  "before h 0 = 0"
| "before h (Suc j) = h j"

definition no_failure :: "event \<Rightarrow> error option" where
  "no_failure ev = None"

text \<open>The trace of a scroll loop that makes \<open>k\<close> iterations after its first measurement.\<close>

definition scroll_trace :: "nat \<Rightarrow> event list" where
  "scroll_trace k =
     ScrollHeight # concat (replicate k [ScrollToBottom, WaitForTimeout 2000, ScrollHeight])"

section \<open>Fixtures\<close>

text \<open>
  An operation that fails on every call, with an error that tells the calls apart;
  its world counts the calls.
\<close>

definition fail_numbered :: "nat \<Rightarrow> ((error + unit) \<times> nat) option" where
  "fail_numbered w = Some (Inl (JsError ''TimeoutError'' (''attempt '' @ show_nat (Suc w))), Suc w)"

definition empty_document :: node where
  "empty_document = Element ''html'' [] None [Element ''body'' [] None []]"

definition ok_response :: response where
  "ok_response = \<lparr>status = 200, body_text = Inr ''ok''\<rparr>"

text \<open>
  Two cards, the first found by its \<^verbatim>\<open>data-testid\<close> and the second by its class only, a
  card with no title, and documents that hold them.
\<close>

definition clicks_label :: node where
  "clicks_label = Element ''span'' [(''class'', ''stat clicks'')] None [Text ''1,234 clicks'']"

definition card_by_testid :: node where
  "card_by_testid =
     Element ''div'' [(''data-testid'', ''link-card'')] None
       [Element ''h3'' [] None [Text ''  My shop ''],
        Element ''a'' [(''href'', ''https://example.com/shop'')] None [Text ''open''],
        clicks_label]"

definition card_by_class :: node where
  "card_by_class =
     Element ''li'' [(''class'', ''link-card'')] None
       [Element ''input'' [(''aria-label'', ''Title'')] (Some ''Blog'') [],
        Element ''a'' [(''href'', ''http://b.org'')] None []]"

definition card_without_title :: node where
  "card_without_title =
     Element ''div'' [(''class'', ''big link-card-row'')] None
       [Element ''a'' [(''href'', ''https://example.com/untitled'')] None [Text ''7 clicks'']]"

definition two_card_document :: node where
  "two_card_document =
     Element ''html'' [] None [Element ''body'' [] None [card_by_testid, card_by_class]]"

definition three_card_document :: node where
  "three_card_document =
     Element ''html'' [] None
       [Element ''body'' [] None [card_by_testid, card_without_title, card_by_class]]"

text \<open>
  A configuration with a cookie, a webhook and no credentials, one with credentials as
  well, and hosts on which one call fails.
\<close>

definition cookie_only_config :: config where
  "cookie_only_config =
     \<lparr>LINKTREE_EMAIL = None, LINKTREE_PASSWORD = None, LT_COOKIE = Some ''session=abc'',
      WEBHOOK_URL = Some ''https://hooks.example/ingest''\<rparr>"

definition full_config :: config where
  "full_config =
     \<lparr>LINKTREE_EMAIL = Some ''me@example.com'', LINKTREE_PASSWORD = Some ''secret'',
      LT_COOKIE = Some ''session=abc'', WEBHOOK_URL = Some ''https://hooks.example/ingest''\<rparr>"

definition fails_at :: "event \<Rightarrow> string \<Rightarrow> event \<Rightarrow> error option" where
  "fails_at ev0 msg ev = (if ev = ev0 then Some (JsError ''Error'' msg) else None)"

definition server_error_response :: response where
  "server_error_response = \<lparr>status = 500, body_text = Inr ''error''\<rparr>"


declare retry_from.simps [simp del]

section \<open>Properties of retry\<close>

lemma retry_from_all_fail:
  assumes "int i < n"
    and "\<forall>k. int (i + k) < n \<longrightarrow> (\<exists>e w'. fn (after_attempts fn k w) = Some (Inl e, w'))"
  shows "\<exists>e w' evs. retry_from fn n d i w = Some (Inl e, w', evs)
       \<and> length (filter is_Invoke evs) = nat n - i
       \<and> fn (after_attempts fn (nat n - Suc i) w) = Some (Inl e, w')"
  using assms
proof (induction "nat n - Suc i" arbitrary: i w)
  case 0
  then have last: "int i = n - 1" by linarith
  from "0.prems"(2) [rule_format, of 0] "0.prems"(1)
  obtain e w' where f: "fn w = Some (Inl e, w')" by auto
  have "nat n - Suc i = 0" using last by simp
  with f last "0.prems"(1) show ?case
    by (subst retry_from.simps) simp
next
  case (Suc m)
  then have notlast: "int i \<noteq> n - 1" and lt: "int (Suc i) < n" by linarith+
  from Suc.prems(2) [rule_format, of 0] Suc.prems(1)
  obtain e0 w0 where f: "fn w = Some (Inl e0, w0)" by auto
  have hyp: "\<forall>k. int (Suc i + k) < n \<longrightarrow> (\<exists>e w'. fn (after_attempts fn k w0) = Some (Inl e, w'))"
  proof (intro allI impI)
    fix k assume "int (Suc i + k) < n"
    then have "int (i + Suc k) < n" by simp
    from Suc.prems(2) [rule_format, OF this] f
    show "\<exists>e w'. fn (after_attempts fn k w0) = Some (Inl e, w')" by simp
  qed
  have m: "m = nat n - Suc (Suc i)" using Suc.hyps(2) by linarith
  from Suc.hyps(1) [OF m lt hyp]
  obtain e w' evs where r: "retry_from fn n d (Suc i) w0 = Some (Inl e, w', evs)"
    and c: "length (filter is_Invoke evs) = nat n - Suc i"
    and l: "fn (after_attempts fn (nat n - Suc (Suc i)) w0) = Some (Inl e, w')" by blast
  have idx: "nat n - Suc i = Suc (nat n - Suc (Suc i))" using lt by linarith
  have "retry_from fn n d i w = Some (Inl e, w',
      [Invoke (Suc i), LogFailed (Suc i) (message e0), Sleep (d * int (Suc i))] @ evs)"
    using f r notlast Suc.prems(1) by (subst retry_from.simps) simp
  moreover have "length (filter is_Invoke ([Invoke (Suc i), LogFailed (Suc i) (message e0), Sleep (d * int (Suc i))] @ evs)) = nat n - i"
    using c lt by simp
  moreover have "fn (after_attempts fn (nat n - Suc i) w) = Some (Inl e, w')"
    using l f by (simp add: idx)
  ultimately show ?case by blast
qed

lemma retry_from_cases:
  assumes "retry_from fn n d i w = Some (r, w', evs)"
  shows "(\<not> int i < n \<and> evs = [] \<and> r = Inr None \<and> w' = w)
       \<or> (int i < n \<and> (\<exists>v. fn w = Some (Inr v, w') \<and> r = Inr (Some v) \<and> evs = [Invoke (Suc i)]))
       \<or> (int i = n - 1 \<and> (\<exists>e. fn w = Some (Inl e, w') \<and> r = Inl e
              \<and> evs = [Invoke (Suc i), LogFailed (Suc i) (message e)]))
       \<or> (int (Suc i) < n \<and> (\<exists>e w1 evs'. fn w = Some (Inl e, w1)
              \<and> retry_from fn n d (Suc i) w1 = Some (r, w', evs')
              \<and> evs = Invoke (Suc i) # LogFailed (Suc i) (message e) # Sleep (d * int (Suc i)) # evs'))"
  using assms
  by (subst (asm) retry_from.simps) (auto split: if_splits option.splits sum.splits prod.splits)

lemma retry_from_head:
  assumes "retry_from fn n d i w = Some (r, w', evs)" and "int i < n"
  shows "\<exists>rest. evs = Invoke (Suc i) # rest"
  using retry_from_cases [OF assms(1)] assms(2) by auto

lemma retry_from_invoke_bounds:
  "retry_from fn n d i w = Some (r, w', evs) \<Longrightarrow> Invoke k \<in> set evs \<Longrightarrow> i < k \<and> int k \<le> n"
proof (induction "nat (n - int i)" arbitrary: i w evs)
  case 0
  with retry_from_cases [OF "0.prems"(1)] show ?case by auto
next
  case (Suc m)
  from retry_from_cases [OF Suc.prems(1)] Suc.prems(2)
  consider "k = Suc i" "int i < n"
    | w1 evs' where "int (Suc i) < n" "retry_from fn n d (Suc i) w1 = Some (r, w', evs')" "Invoke k \<in> set evs'"
    by auto
  then show ?case
  proof cases
    case 1
    then show ?thesis by simp
  next
    case 2
    have "m = nat (n - int (Suc i))" using Suc.hyps(2) by simp
    from Suc.hyps(1) [OF this 2(2) 2(3)] show ?thesis by simp
  qed
qed

lemma after_invoke_Cons:
  "after_invoke k (ev # evs) = (if ev = Invoke k then takeWhile (\<lambda>ev. \<not> is_Invoke ev) evs else after_invoke k evs)"
  by (simp add: after_invoke_def)

lemma retry_from_delays:
  "retry_from fn n d i w = Some (r, w', evs) \<Longrightarrow>
     (\<forall>k. Invoke (Suc k) \<in> set evs \<and> i < k \<longrightarrow>
            Invoke k \<in> set evs \<and> delays_after k evs = [d * int k]) \<and>
     (\<forall>k. Invoke k \<in> set evs \<and> Invoke (Suc k) \<notin> set evs \<longrightarrow> delays_after k evs = [])"
proof (induction "nat (n - int i)" arbitrary: i w evs)
  case 0
  with retry_from_cases [OF "0.prems"(1)] show ?case by auto
next
  case (Suc m)
  from retry_from_cases [OF Suc.prems(1)]
  consider (single) "evs = [Invoke (Suc i)]"
    | (last) e where "evs = [Invoke (Suc i), LogFailed (Suc i) (message e)]"
    | (more) e w1 evs' where "int (Suc i) < n" "retry_from fn n d (Suc i) w1 = Some (r, w', evs')"
        "evs = Invoke (Suc i) # LogFailed (Suc i) (message e) # Sleep (d * int (Suc i)) # evs'"
    using Suc.hyps(2) by auto
  then show ?case
  proof cases
    case single
    then show ?thesis by (auto simp: delays_after_def after_invoke_Cons)
  next
    case last
    then show ?thesis by (auto simp: delays_after_def after_invoke_Cons)
  next
    case more
    have m: "m = nat (n - int (Suc i))" using Suc.hyps(2) by simp
    note IH = Suc.hyps(1) [OF m more(2)]
    from retry_from_head [OF more(2) more(1)] obtain rest where hd: "evs' = Invoke (Suc (Suc i)) # rest" by blast
    have bounds: "\<And>k. Invoke k \<in> set evs' \<Longrightarrow> Suc i < k"
      using retry_from_invoke_bounds [OF more(2)] by blast
    have first: "Invoke k \<in> set evs \<and> delays_after k evs = [d * int k]"
      if a: "Invoke (Suc k) \<in> set evs \<and> i < k" for k
    proof -
      from a have in': "Invoke (Suc k) \<in> set evs'" using more(3) by auto
      show ?thesis
      proof (cases "k = Suc i")
        case True
        then show ?thesis using more(3) hd by (simp add: delays_after_def after_invoke_Cons)
      next
        case False
        with a have "Suc i < k" by simp
        with IH in' have "Invoke k \<in> set evs' \<and> delays_after k evs' = [d * int k]" by blast
        moreover have "delays_after k evs = delays_after k evs'"
          using False more(3) by (simp add: delays_after_def after_invoke_Cons)
        ultimately show ?thesis using more(3) by simp
      qed
    qed
    have second: "delays_after k evs = []"
      if a: "Invoke k \<in> set evs \<and> Invoke (Suc k) \<notin> set evs" for k
    proof -
      from a have "k \<noteq> Suc i" using more(3) hd by auto
      with a more(3) have "Invoke k \<in> set evs' \<and> Invoke (Suc k) \<notin> set evs'" by auto
      with IH have "delays_after k evs' = []" by blast
      moreover have "delays_after k evs = delays_after k evs'"
        using \<open>k \<noteq> Suc i\<close> more(3) by (simp add: delays_after_def after_invoke_Cons)
      ultimately show ?thesis by simp
    qed
    from first second show ?thesis by blast
  qed
qed

text \<open>
  C1. For a positive \<open>maxRetries = n\<close> and an operation whose first \<open>n\<close> attempts all
  fail, \<open>retry\<close> calls the operation exactly \<open>n\<close> times and raises the error of the
  last attempt itself: the error that the \<open>n\<close>-th call of \<open>fn\<close> returned, in the world
  that call left.
\<close>

theorem retry_exhausted:
  assumes "0 < n"
    and "\<forall>k. int k < n \<longrightarrow> (\<exists>e w'. fn (after_attempts fn k w) = Some (Inl e, w'))"
  shows "\<exists>e w' evs. retry fn n d w = Some (Inl e, w', evs)
       \<and> length (filter is_Invoke evs) = nat n
       \<and> fn (after_attempts fn (nat n - 1) w) = Some (Inl e, w')"
  using retry_from_all_fail [of 0 n fn w d] assms by (simp add: retry_def)

theorem retry_exhausted_witness:
  "\<exists>w' evs. retry fail_numbered 3 1000 0
       = Some (Inl (JsError ''TimeoutError'' ''attempt 3''), w', evs)
     \<and> length (filter is_Invoke evs) = 3"
proof -
  have fails: "\<forall>k. int k < 3 \<longrightarrow>
      (\<exists>e w'. fail_numbered (after_attempts fail_numbered k 0) = Some (Inl e, w'))"
    by (simp add: fail_numbered_def)
  have pos: "(0::int) < 3" by simp
  from retry_exhausted [where n = 3 and fn = fail_numbered and w = 0 and d = 1000, OF pos fails]
  obtain e w' evs where run: "retry fail_numbered 3 1000 0 = Some (Inl e, w', evs)"
    and count: "length (filter is_Invoke evs) = nat 3"
    and last: "fail_numbered (after_attempts fail_numbered (nat 3 - 1) 0) = Some (Inl e, w')"
    by blast
  have two: "nat 3 - 1 = Suc (Suc 0)" by simp
  have "after_attempts fail_numbered (Suc (Suc 0)) 0 = Suc (Suc 0)"
    by (simp add: fail_numbered_def)
  with last have "fail_numbered (Suc (Suc 0)) = Some (Inl e, w')"
    unfolding two by simp
  then have "e = JsError ''TimeoutError'' ''attempt 3''"
    by (simp add: fail_numbered_def show_nat.simps)
  with run count show ?thesis by simp
qed

text \<open>
  C9. In every run of \<open>retry\<close> that returns: when attempt \<open>k + 1\<close> takes place
  (\<open>1 \<le> k\<close>, and then \<open>k < maxRetries\<close>), attempt \<open>k\<close> took place before it and the one
  timer between the two waits \<open>delay * k\<close>; after the final attempt there is no timer.
\<close>

theorem retry_linear_delay:
  assumes "retry fn n d w = Some (r, w', evs)"
  shows "(\<forall>k. 1 \<le> k \<and> Invoke (Suc k) \<in> set evs \<longrightarrow>
            int k < n \<and> Invoke k \<in> set evs \<and> delays_after k evs = [d * int k]) \<and>
         (\<forall>k. Invoke k \<in> set evs \<and> Invoke (Suc k) \<notin> set evs \<longrightarrow> delays_after k evs = [])"
proof -
  from assms have run: "retry_from fn n d 0 w = Some (r, w', evs)" by (simp add: retry_def)
  have "int k < n" if "Invoke (Suc k) \<in> set evs" for k
    using retry_from_invoke_bounds [OF run that] by simp
  with retry_from_delays [OF run] show ?thesis by auto
qed

theorem retry_linear_delay_witness:
  "retry fail_numbered 3 1000 0
     = Some (Inl (JsError ''TimeoutError'' ''attempt 3''), 3,
         [Invoke 1, LogFailed 1 ''attempt 1'', Sleep 1000,
          Invoke 2, LogFailed 2 ''attempt 2'', Sleep 2000,
          Invoke 3, LogFailed 3 ''attempt 3''])
   \<and> delays_after 1 [Invoke 1, LogFailed 1 ''attempt 1'', Sleep 1000,
          Invoke 2, LogFailed 2 ''attempt 2'', Sleep 2000,
          Invoke 3, LogFailed 3 ''attempt 3''] = [1000 * int 1]
   \<and> delays_after 2 [Invoke 1, LogFailed 1 ''attempt 1'', Sleep 1000,
          Invoke 2, LogFailed 2 ''attempt 2'', Sleep 2000,
          Invoke 3, LogFailed 3 ''attempt 3''] = [1000 * int 2]
   \<and> delays_after 3 [Invoke 1, LogFailed 1 ''attempt 1'', Sleep 1000,
          Invoke 2, LogFailed 2 ''attempt 2'', Sleep 2000,
          Invoke 3, LogFailed 3 ''attempt 3''] = []"
proof -
  have run: "retry fail_numbered 3 1000 0
     = Some (Inl (JsError ''TimeoutError'' ''attempt 3''), 3,
         [Invoke 1, LogFailed 1 ''attempt 1'', Sleep 1000,
          Invoke 2, LogFailed 2 ''attempt 2'', Sleep 2000,
          Invoke 3, LogFailed 3 ''attempt 3''])"
    by (simp add: retry_def retry_from.simps fail_numbered_def show_nat.simps)
  from retry_linear_delay [OF run] run show ?thesis
    by simp
qed

section \<open>Properties of the scroll loop\<close>

lemma scripted_scroll_step:
  assumes "previousHeight < currentHeight"
  shows "scroll_loop (scripted_host no_failure h landing doc resp) previousHeight currentHeight (w, tr)
       = scroll_loop (scripted_host no_failure h landing doc resp) currentHeight (h w)
           (Suc w, tr @ [ScrollToBottom, WaitForTimeout 2000, ScrollHeight])"
  using assms
  by (subst scroll_loop.simps)
     (simp add: call_def scripted_host_def no_failure_def answer_def)

lemma scroll_loop_stop:
  assumes "\<not> previousHeight < currentHeight"
  shows "scroll_loop api previousHeight currentHeight s = Some (Inr (), s)"
  using assms by (subst scroll_loop.simps) simp

lemma scripted_scroll_terminates:
  assumes "\<forall>j<k. before h (i + j) < h (i + j)" and "h (i + k) \<le> before h (i + k)"
  shows "scroll_loop (scripted_host no_failure h landing doc resp) (before h i) (h i) (Suc i, tr)
       = Some (Inr (), (Suc (i + k),
           tr @ concat (replicate k [ScrollToBottom, WaitForTimeout 2000, ScrollHeight])))"
  using assms
proof (induction k arbitrary: i tr)
  case 0
  then show ?case by (simp add: scroll_loop_stop)
next
  case (Suc k)
  have now: "before h i < h i"
    using Suc.prems(1) [rule_format, of 0] by simp
  have later: "\<forall>j<k. before h (Suc i + j) < h (Suc i + j)"
  proof (intro allI impI)
    fix j assume "j < k"
    then have "Suc j < Suc k" by simp
    from Suc.prems(1) [rule_format, OF this] show "before h (Suc i + j) < h (Suc i + j)" by simp
  qed
  from Suc.prems(2) have stop: "h (Suc i + k) \<le> before h (Suc i + k)" by simp
  have "scroll_loop (scripted_host no_failure h landing doc resp) (before h i) (h i) (Suc i, tr)
      = scroll_loop (scripted_host no_failure h landing doc resp) (before h (Suc i)) (h (Suc i))
          (Suc (Suc i), tr @ [ScrollToBottom, WaitForTimeout 2000, ScrollHeight])"
    using scripted_scroll_step [OF now] by simp
  also have "\<dots> = Some (Inr (), (Suc (Suc i + k),
      (tr @ [ScrollToBottom, WaitForTimeout 2000, ScrollHeight])
        @ concat (replicate k [ScrollToBottom, WaitForTimeout 2000, ScrollHeight])))"
    by (rule Suc.IH [OF later stop])
  finally show ?case by simp
qed

lemma scripted_scroll_diverges_aux:
  assumes run: "scroll_loop api p c s = Some y"
    and grow: "\<forall>j. before h j < h j"
  shows "api = scripted_host no_failure h landing doc resp \<longrightarrow>
           (\<forall>i tr. p = before h i \<and> c = h i \<and> s = (Suc i, tr) \<longrightarrow> False)"
proof (rule scroll_loop.raw_induct
    [where P = "\<lambda>api p c s y. api = scripted_host no_failure h landing doc resp \<longrightarrow>
           (\<forall>i tr. p = before h i \<and> c = h i \<and> s = (Suc i, tr) \<longrightarrow> False)", OF _ run])
  fix f :: "nat host \<Rightarrow> nat \<Rightarrow> nat \<Rightarrow> nat run \<Rightarrow> ((error + unit) \<times> nat run) option"
  fix api p c s y
  assume IH: "\<And>api p c s y. f api p c s = Some y \<Longrightarrow>
      api = scripted_host no_failure h landing doc resp \<longrightarrow>
           (\<forall>i tr. p = before h i \<and> c = h i \<and> s = (Suc i, tr) \<longrightarrow> False)"
  assume body: "(if p < c
      then case call ScrollToBottom (scrollToBottom api) s of None \<Rightarrow> None
           | Some (Inl e, s1) \<Rightarrow> Some (Inl e, s1)
           | Some (Inr u, s1) \<Rightarrow>
               (case call (WaitForTimeout 2000) (waitForTimeout api 2000) s1 of
                  None \<Rightarrow> None | Some (Inl e, s2) \<Rightarrow> Some (Inl e, s2)
                | Some (Inr u', s2) \<Rightarrow>
                   (case call ScrollHeight (scrollHeight api) s2 of
                      None \<Rightarrow> None | Some (Inl e, s3) \<Rightarrow> Some (Inl e, s3)
                    | Some (Inr h, s3) \<Rightarrow> f api c h s3))
      else Some (Inr (), s)) = Some y"
  show "api = scripted_host no_failure h landing doc resp \<longrightarrow>
           (\<forall>i tr. p = before h i \<and> c = h i \<and> s = (Suc i, tr) \<longrightarrow> False)"
  proof (intro impI allI notI)
    fix i tr
    assume api: "api = scripted_host no_failure h landing doc resp"
      and pcs: "p = before h i \<and> c = h i \<and> s = (Suc i, tr)"
    have lt: "p < c" using grow pcs by simp
    from body lt have "f api c (h (Suc i))
           (Suc (Suc i), tr @ [ScrollToBottom, WaitForTimeout 2000, ScrollHeight]) = Some y"
      by (simp add: api pcs call_def scripted_host_def no_failure_def answer_def)
    from IH [OF this] api pcs show False by simp
  qed
qed

lemma load_all_links_scripted:
  "load_all_links (scripted_host no_failure h landing doc resp) (0, tr)
     = scroll_loop (scripted_host no_failure h landing doc resp) (before h 0) (h 0)
         (Suc 0, tr @ [ScrollHeight])"
  by (simp add: load_all_links_def andThen_def call_def scripted_host_def no_failure_def answer_def)

lemma scripted_load_stops:
  assumes "\<forall>j<k. before h j < h j" and "h k \<le> before h k"
  shows "load_all_links (scripted_host no_failure h landing doc resp) (0, [])
         = Some (Inr (), (Suc k, scroll_trace k))"
proof -
  have "scroll_loop (scripted_host no_failure h landing doc resp) (before h 0) (h 0)
          (Suc 0, [ScrollHeight])
        = Some (Inr (), (Suc (0 + k),
            [ScrollHeight] @ concat (replicate k [ScrollToBottom, WaitForTimeout 2000, ScrollHeight])))"
    by (rule scripted_scroll_terminates) (use assms in simp_all)
  then show ?thesis
    by (simp add: load_all_links_scripted scroll_trace_def)
qed

lemma scripted_load_diverges:
  assumes grow: "\<forall>j. before h j < h j"
  shows "load_all_links (scripted_host no_failure h landing doc resp) (0, []) = None"
proof (cases "load_all_links (scripted_host no_failure h landing doc resp) (0, [])")
  case None
  then show ?thesis .
next
  case (Some y)
  then have "scroll_loop (scripted_host no_failure h landing doc resp) (before h 0) (h 0)
      (Suc 0, [ScrollHeight]) = Some y"
    by (simp add: load_all_links_scripted)
  from scripted_scroll_diverges_aux [OF this grow, of landing doc resp]
  have False by blast
  then show ?thesis ..
qed

lemma less_two_cases: "j < 2 \<Longrightarrow> j = 0 \<or> j = Suc 0" for j :: nat
  by arith

lemma script_100_200_200:
  "(\<forall>j<2. before (script [100, 200, 200]) j < script [100, 200, 200] j)
   \<and> script [100, 200, 200] 2 \<le> before (script [100, 200, 200]) 2"
proof -
  have "before (script [100, 200, 200]) 0 < script [100, 200, 200] 0"
    by (simp add: script_def)
  moreover have "before (script [100, 200, 200]) (Suc 0) < script [100, 200, 200] (Suc 0)"
    by (simp add: script_def)
  moreover have "script [100, 200, 200] 2 \<le> before (script [100, 200, 200]) 2"
    by (simp add: script_def numeral_2_eq_2)
  ultimately show ?thesis using less_two_cases by blast
qed

lemma script_100_200_150:
  "(\<forall>j<2. before (script [100, 200, 150]) j < script [100, 200, 150] j)
   \<and> script [100, 200, 150] 2 \<le> before (script [100, 200, 150]) 2"
proof -
  have "before (script [100, 200, 150]) 0 < script [100, 200, 150] 0"
    by (simp add: script_def)
  moreover have "before (script [100, 200, 150]) (Suc 0) < script [100, 200, 150] (Suc 0)"
    by (simp add: script_def)
  moreover have "script [100, 200, 150] 2 \<le> before (script [100, 200, 150]) 2"
    by (simp add: script_def numeral_2_eq_2)
  ultimately show ?thesis using less_two_cases by blast
qed

text \<open>
  C4, as the claim states it, fails: on the heights 100, 200, 150 the loop returns after
  two iterations and three measurements, and no two consecutive measurements are equal.
\<close>

theorem scroll_stops_on_shrinking_height:
  "load_all_links (scripted_host no_failure (script [100, 200, 150]) [] empty_document ok_response)
       (0, [])
     = Some (Inr (), (3, scroll_trace 2))
   \<and> script [100, 200, 150] 0 \<noteq> script [100, 200, 150] 1
   \<and> script [100, 200, 150] 1 \<noteq> script [100, 200, 150] 2"
proof -
  have "load_all_links (scripted_host no_failure (script [100, 200, 150]) [] empty_document ok_response)
       (0, [])
     = Some (Inr (), (Suc 2, scroll_trace 2))"
    by (rule scripted_load_stops
          [OF conjunct1 [OF script_100_200_150] conjunct2 [OF script_100_200_150]])
  moreover have "Suc 2 = 3" by simp
  ultimately show ?thesis by (simp add: script_def)
qed

text \<open>
  C4, amended. On a page whose \<open>j\<close>-th height measurement is \<open>h j\<close> (and whose calls do
  not fail), the loop returns exactly when a measurement does not exceed the one before
  it, the first being compared with 0: if measurement \<open>k\<close> is the first such, the loop
  returns after \<open>k\<close> iterations and \<open>k + 1\<close> measurements; if every measurement exceeds
  the one before it, the loop never returns. On the heights 100, 200, 200 it makes
  exactly 2 iterations.
\<close>

theorem scroll_until_no_growth:
  "(\<forall>k. (\<forall>j<k. before h j < h j) \<and> h k \<le> before h k \<longrightarrow>
       load_all_links (scripted_host no_failure h landing doc resp) (0, [])
         = Some (Inr (), (Suc k, scroll_trace k)))
   \<and> ((\<forall>j. before h j < h j) \<longrightarrow>
       load_all_links (scripted_host no_failure h landing doc resp) (0, []) = None)
   \<and> load_all_links (scripted_host no_failure (script [100, 200, 200]) landing doc resp) (0, [])
         = Some (Inr (), (3, scroll_trace 2))"
proof (intro conjI allI impI)
  fix k assume a: "(\<forall>j<k. before h j < h j) \<and> h k \<le> before h k"
  show "load_all_links (scripted_host no_failure h landing doc resp) (0, [])
         = Some (Inr (), (Suc k, scroll_trace k))"
    by (rule scripted_load_stops [OF conjunct1 [OF a] conjunct2 [OF a]])
next
  assume "\<forall>j. before h j < h j"
  then show "load_all_links (scripted_host no_failure h landing doc resp) (0, []) = None"
    by (rule scripted_load_diverges)
next
  have "load_all_links (scripted_host no_failure (script [100, 200, 200]) landing doc resp) (0, [])
         = Some (Inr (), (Suc 2, scroll_trace 2))"
    by (rule scripted_load_stops
          [OF conjunct1 [OF script_100_200_200] conjunct2 [OF script_100_200_200]])
  then show "load_all_links (scripted_host no_failure (script [100, 200, 200]) landing doc resp) (0, [])
         = Some (Inr (), (3, scroll_trace 2))"
    by (simp only: numeral_3_eq_3 numeral_2_eq_2)
qed

theorem scroll_until_no_growth_witness:
  "load_all_links (scripted_host no_failure (script [100, 200, 150]) [] empty_document ok_response)
       (0, [])
     = Some (Inr (), (Suc 2, scroll_trace 2))
   \<and> load_all_links (scripted_host no_failure Suc [] empty_document ok_response) (0, []) = None"
proof -
  note inst = scroll_until_no_growth [where landing = "[]" and doc = empty_document
      and resp = ok_response]
  have "load_all_links (scripted_host no_failure (script [100, 200, 150]) [] empty_document ok_response)
       (0, [])
     = Some (Inr (), (Suc 2, scroll_trace 2))"
    using inst [where h = "script [100, 200, 150]", THEN conjunct1, rule_format, of 2]
      script_100_200_150 by blast
  moreover have "\<forall>j. before Suc j < Suc j"
  proof
    fix j show "before Suc j < Suc j" by (cases j) simp_all
  qed
  then have "load_all_links (scripted_host no_failure Suc [] empty_document ok_response) (0, []) = None"
    using inst [where h = Suc, THEN conjunct2, THEN conjunct1] by blast
  ultimately show ?thesis by blast
qed

section \<open>Properties of the record extractor\<close>

lemma extract_card_valid:
  "r \<in> set (extract_card resolve crd) \<Longrightarrow>
     title r \<noteq> [] \<and> url r \<noteq> [] \<and> clicks r = card_clicks crd"
  by (auto simp: extract_card_def Let_def split: if_splits)

lemma first_digit_group_decompose:
  assumes "\<exists>c \<in> set s. is_digit c"
  shows "\<exists>pre post. s = pre @ first_digit_group s @ post
           \<and> (\<forall>c \<in> set pre. \<not> is_digit c)
           \<and> first_digit_group s \<noteq> []
           \<and> (\<forall>c \<in> set (first_digit_group s). is_digit c)
           \<and> (post = [] \<or> \<not> is_digit (hd post))"
proof -
  let ?pre = "takeWhile (\<lambda>c. \<not> is_digit c) s"
  let ?rest = "dropWhile (\<lambda>c. \<not> is_digit c) s"
  let ?post = "dropWhile is_digit ?rest"
  have rest: "?rest \<noteq> []" using assms by (simp add: dropWhile_eq_Nil_conv)
  then have hd: "is_digit (hd ?rest)" using hd_dropWhile [of "\<lambda>c. \<not> is_digit c" s] by simp
  have group: "first_digit_group s \<noteq> []"
    using rest hd by (cases ?rest) (auto simp: first_digit_group_def)
  have split: "s = ?pre @ first_digit_group s @ ?post"
    by (simp add: first_digit_group_def)
  have pre: "\<forall>c \<in> set ?pre. \<not> is_digit c"
    by (auto dest: set_takeWhileD)
  have digits: "\<forall>c \<in> set (first_digit_group s). is_digit c"
    by (auto simp: first_digit_group_def dest: set_takeWhileD)
  have post: "?post = [] \<or> \<not> is_digit (hd ?post)"
    using hd_dropWhile [of is_digit ?rest] by blast
  from split pre group digits post show ?thesis by blast
qed

lemma first_digit_group_none:
  assumes "\<forall>c \<in> set s. \<not> is_digit c"
  shows "first_digit_group s = []"
proof -
  from assms have d: "dropWhile (\<lambda>c. \<not> is_digit c) s = []" by simp
  show ?thesis unfolding first_digit_group_def d by simp
qed

text \<open>
  C2. For every document (and every way the browser resolves addresses), each record
  the extractor emits has a non-empty title and a non-empty url; a document in which no
  element matches the card selector yields the empty sequence.
\<close>

theorem extractor_emits_only_valid_records:
  "(\<forall>r \<in> set (extract_links resolve doc). title r \<noteq> [] \<and> url r \<noteq> [])
   \<and> (cards doc = [] \<longrightarrow> extract_links resolve doc = [])"
  by (auto simp: extract_links_def dest: extract_card_valid)

theorem extractor_emits_only_valid_records_witness:
  "extract_links (\<lambda>h. h) three_card_document
     = [\<lparr>title = ''My shop'', url = ''https://example.com/shop'', clicks = 1\<rparr>,
        \<lparr>title = ''Blog'', url = ''http://b.org'', clicks = 0\<rparr>]
   \<and> length (cards three_card_document) = 3
   \<and> ''My shop'' \<noteq> [] \<and> ''https://example.com/shop'' \<noteq> []
   \<and> ''Blog'' \<noteq> [] \<and> ''http://b.org'' \<noteq> []
   \<and> cards empty_document = [] \<and> extract_links (\<lambda>h. h) empty_document = []"
proof -
  have run: "extract_links (\<lambda>h. h) three_card_document
     = [\<lparr>title = ''My shop'', url = ''https://example.com/shop'', clicks = 1\<rparr>,
        \<lparr>title = ''Blog'', url = ''http://b.org'', clicks = 0\<rparr>]"
    by code_simp
  have three: "length (cards three_card_document) = 3"
    by code_simp
  have none: "cards empty_document = []"
    by code_simp
  from extractor_emits_only_valid_records [of "\<lambda>h. h" three_card_document]
    extractor_emits_only_valid_records [of "\<lambda>h. h" empty_document] run three none
  show ?thesis by simp
qed

lemma digit_values: "map digit_value ''0123456789'' = [0, 1, 2, 3, 4, 5, 6, 7, 8, 9]"
  by (simp add: digit_value_def)

lemma digit_value_le: "is_digit c \<Longrightarrow> digit_value c \<le> 9"
  by (auto simp: is_digit_def digit_value_def)

lemma parseInt_snoc: "parseInt (ds @ [c]) = digit_value c + 10 * parseInt ds"
  by (simp add: parseInt_def)

lemma parseInt_decimal: "parseInt ds = decimal (rev (map digit_value ds))"
proof (induction ds rule: rev_induct)
  case Nil
  show ?case by (simp add: parseInt_def)
next
  case (snoc c ds)
  then show ?case by (simp add: parseInt_snoc)
qed

lemma parseInt_below_power:
  assumes "\<forall>c \<in> set ds. is_digit c"
  shows "parseInt ds < 10 ^ length ds"
  using assms
proof (induction ds rule: rev_induct)
  case Nil
  show ?case by (simp add: parseInt_def)
next
  case (snoc c ds)
  then have "parseInt ds < 10 ^ length ds" and "digit_value c \<le> 9"
    by (simp_all add: digit_value_le)
  then have "digit_value c + 10 * parseInt ds < 10 * 10 ^ length ds" by arith
  then show ?case by (simp add: parseInt_snoc)
qed

lemma parseInt_exact_range:
  assumes "\<forall>c \<in> set ds. is_digit c" and "length ds \<le> 15"
  shows "parseInt ds < 2 ^ 53"
proof -
  have "parseInt ds < (10::nat) ^ length ds"
    using assms(1) by (rule parseInt_below_power)
  also have "(10::nat) ^ length ds \<le> 10 ^ 15"
    using assms(2) by (intro power_increasing) simp_all
  also have "(10::nat) ^ 15 < 2 ^ 53" by simp
  finally show ?thesis .
qed

lemma parseInt_samples:
  "parseInt ''1'' = 1 \<and> parseInt ''1234'' = 1234 \<and> parseInt ''007'' = 7
   \<and> parseInt ''0'' = 0 \<and> parseInt ''42'' = 42"
  by (simp add: parseInt_def digit_value_def)

text \<open>The two places to close the parenthesis of line 174 give the same clicks.\<close>

lemma card_clicks_alt_eq: "card_clicks_alt crd = card_clicks crd"
  by (simp add: card_clicks_alt_def card_clicks_def parseInt_or_NaN_def Let_def
      split: option.splits)

text \<open>
  C6. The code does not do what the claim says: line 174 does not parse, so the module
  does not load and no clicks are computed for any card. What follows is about the line
  with its parenthesis closed, at either place. When the click element of a card has a
  digit in its text, the clicks of the card are the decimal value of the first
  contiguous group of digits of that text: the text splits into a part without digits,
  the group, and a rest that does not start with a digit, and for a group of at most 15
  digits the value is below \<open>2^53\<close>, where JavaScript numbers are exact. So the text
  \<^verbatim>\<open>1,234 clicks\<close> gives 1. When the card has no click element, or its text has no
  digit, the clicks are 0. An emitted record carries these clicks.
\<close>

lemma clicks_are_first_digit_group:
  "(clickElement crd = Some el \<and> (\<exists>c \<in> set (textContent el). is_digit c) \<longrightarrow>
      card_clicks crd = decimal (rev (map digit_value (first_digit_group (textContent el))))
      \<and> card_clicks_alt crd = card_clicks crd
      \<and> (length (first_digit_group (textContent el)) \<le> 15 \<longrightarrow> card_clicks crd < 2 ^ 53)
      \<and> (\<exists>pre post. textContent el = pre @ first_digit_group (textContent el) @ post
            \<and> (\<forall>c \<in> set pre. \<not> is_digit c)
            \<and> first_digit_group (textContent el) \<noteq> []
            \<and> (\<forall>c \<in> set (first_digit_group (textContent el)). is_digit c)
            \<and> (post = [] \<or> \<not> is_digit (hd post))))
   \<and> (clickElement crd = Some el \<and> textContent el = ''1,234 clicks'' \<longrightarrow>
        card_clicks crd = 1 \<and> card_clicks_alt crd = 1)
   \<and> (clickElement crd = None
        \<or> (clickElement crd = Some el \<and> (\<forall>c \<in> set (textContent el). \<not> is_digit c))
       \<longrightarrow> card_clicks crd = 0 \<and> card_clicks_alt crd = 0)
   \<and> (\<forall>r \<in> set (extract_card resolve crd). clicks r = card_clicks crd)"
proof -
  have digits: "card_clicks crd = decimal (rev (map digit_value (first_digit_group (textContent el))))
      \<and> card_clicks_alt crd = card_clicks crd
      \<and> (length (first_digit_group (textContent el)) \<le> 15 \<longrightarrow> card_clicks crd < 2 ^ 53)
      \<and> (\<exists>pre post. textContent el = pre @ first_digit_group (textContent el) @ post
            \<and> (\<forall>c \<in> set pre. \<not> is_digit c)
            \<and> first_digit_group (textContent el) \<noteq> []
            \<and> (\<forall>c \<in> set (first_digit_group (textContent el)). is_digit c)
            \<and> (post = [] \<or> \<not> is_digit (hd post)))"
    if a: "clickElement crd = Some el \<and> (\<exists>c \<in> set (textContent el). is_digit c)"
  proof -
    from first_digit_group_decompose [OF conjunct2 [OF a]]
    have split: "\<exists>pre post. textContent el = pre @ first_digit_group (textContent el) @ post
            \<and> (\<forall>c \<in> set pre. \<not> is_digit c)
            \<and> first_digit_group (textContent el) \<noteq> []
            \<and> (\<forall>c \<in> set (first_digit_group (textContent el)). is_digit c)
            \<and> (post = [] \<or> \<not> is_digit (hd post))" .
    then have ne: "first_digit_group (textContent el) \<noteq> []"
      and all: "\<forall>c \<in> set (first_digit_group (textContent el)). is_digit c"
      by blast+
    from a ne have val: "card_clicks crd = parseInt (first_digit_group (textContent el))"
      by (simp add: card_clicks_def Let_def)
    then have "card_clicks crd
        = decimal (rev (map digit_value (first_digit_group (textContent el))))"
      by (simp add: parseInt_decimal)
    moreover have "card_clicks crd < 2 ^ 53"
      if "length (first_digit_group (textContent el)) \<le> 15"
      using parseInt_exact_range [OF all that] val by simp
    ultimately show ?thesis
      using split card_clicks_alt_eq by blast
  qed
  have sample: "card_clicks crd = 1 \<and> card_clicks_alt crd = 1"
    if a: "clickElement crd = Some el \<and> textContent el = ''1,234 clicks''"
  proof -
    have "first_digit_group ''1,234 clicks'' = ''1''"
      by (simp add: first_digit_group_def is_digit_def)
    moreover have "parseInt ''1'' = 1"
      by (simp add: parseInt_def digit_value_def)
    ultimately have "card_clicks crd = 1"
      using a by (simp add: card_clicks_def Let_def)
    then show ?thesis by (simp add: card_clicks_alt_eq)
  qed
  have none: "card_clicks crd = 0 \<and> card_clicks_alt crd = 0"
    if a: "clickElement crd = None
        \<or> (clickElement crd = Some el \<and> (\<forall>c \<in> set (textContent el). \<not> is_digit c))"
  proof -
    from a have "card_clicks crd = 0"
      by (auto simp: card_clicks_def Let_def first_digit_group_none)
    then show ?thesis by (simp add: card_clicks_alt_eq)
  qed
  have emitted: "\<forall>r \<in> set (extract_card resolve crd). clicks r = card_clicks crd"
    using extract_card_valid by blast
  from digits sample none emitted show ?thesis by blast
qed

lemma clicks_of_sample_cards:
  "clickElement card_by_testid = Some clicks_label
   \<and> textContent clicks_label = ''1,234 clicks''
   \<and> card_clicks card_by_testid = 1
   \<and> clickElement card_by_class = None
   \<and> card_clicks card_by_class = 0
   \<and> card_clicks card_without_title = 7"
  by code_simp

text \<open>
  C7, as the claim states it, fails: in a document with a card that carries
  \<^verbatim>\<open>data-testid="link-card"\<close> and a card that only has the class \<^verbatim>\<open>link-card\<close>, the first
  selector of the list has a match, the second card is matched by the later selectors
  only, and both cards are selected.
\<close>

theorem later_selector_matches_are_included:
  "document_querySelectorAll [[Attr_eq ''data-testid'' ''link-card'']] two_card_document
     = [card_by_testid]
   \<and> \<not> matches [[Attr_eq ''data-testid'' ''link-card'']] card_by_class
   \<and> matches [[Class ''link-card'']] card_by_class
   \<and> cards two_card_document = [card_by_testid, card_by_class]"
  by code_simp

text \<open>
  C7, amended. The card elements are all elements of the document that at least one of
  the three selectors matches, in document order: the selector list is a union, and an
  element that only a later selector matches is selected whether or not an earlier
  selector has matches.
\<close>

theorem cards_are_union_of_selectors:
  "cards doc
     = filter (\<lambda>e. matches [[Attr_eq ''data-testid'' ''link-card'']] e
                  \<or> matches [[Class ''link-card'']] e
                  \<or> matches [[Attr_contains ''class'' ''link-card'']] e) (subtree doc)
   \<and> set (cards doc)
     = set (document_querySelectorAll [[Attr_eq ''data-testid'' ''link-card'']] doc)
       \<union> set (document_querySelectorAll [[Class ''link-card'']] doc)
       \<union> set (document_querySelectorAll [[Attr_contains ''class'' ''link-card'']] doc)"
proof -
  have m: "matches card_selector
      = (\<lambda>e. matches [[Attr_eq ''data-testid'' ''link-card'']] e
        \<or> matches [[Class ''link-card'']] e
        \<or> matches [[Attr_contains ''class'' ''link-card'']] e)"
    by (rule ext) (simp add: matches_def card_selector_def)
  have "cards doc = filter (matches card_selector) (subtree doc)"
    by (simp add: cards_def document_querySelectorAll_def)
  then have first: "cards doc
     = filter (\<lambda>e. matches [[Attr_eq ''data-testid'' ''link-card'']] e
                  \<or> matches [[Class ''link-card'']] e
                  \<or> matches [[Attr_contains ''class'' ''link-card'']] e) (subtree doc)"
    by (simp only: m)
  then have "set (cards doc)
     = set (document_querySelectorAll [[Attr_eq ''data-testid'' ''link-card'']] doc)
       \<union> set (document_querySelectorAll [[Class ''link-card'']] doc)
       \<union> set (document_querySelectorAll [[Attr_contains ''class'' ''link-card'']] doc)"
    by (auto simp: document_querySelectorAll_def)
  with first show ?thesis by blast
qed

section \<open>Properties of parseCookies and sendToWebhook\<close>

lemma call_result:
  "call ev op (w, tr) = Some (fst (op w), (snd (op w), tr @ [ev]))"
  by (simp add: call_def split: prod.splits)

lemma split_on_no_separator: "c \<notin> set s \<Longrightarrow> split_on c s = [s]"
  by (induction s) auto

lemma split_on_at_separator: "c \<notin> set a \<Longrightarrow> split_on c (a @ c # b) = a # split_on c b"
  by (induction a) auto

lemma equals_is_no_space: "\<not> is_space CHR ''=''"
  by (simp add: is_space_def)

lemma trim_around:
  "\<not> is_space x \<Longrightarrow>
     trim (a @ x # b) = dropWhile is_space a @ x # rev (dropWhile is_space (rev b))"
  by (simp add: trim_def dropWhile_append3)

lemma dropWhile_rev_dropWhile:
  "dropWhile P (rev (dropWhile P (rev s))) = rev (dropWhile P (rev (dropWhile P s)))"
proof (cases "\<forall>x \<in> set s. P x")
  case True
  then have d1: "dropWhile P s = []" and d2: "dropWhile P (rev s) = []" by simp_all
  show ?thesis unfolding d1 d2 by simp
next
  case False
  then obtain a x r where s: "s = a @ x # r" and a: "\<forall>y \<in> set a. P y" and x: "\<not> P x"
    using split_list_first_prop [of s "\<lambda>y. \<not> P y"] by auto
  have left: "dropWhile P (rev s) = dropWhile P (rev r) @ x # rev a"
    using x by (simp add: s dropWhile_append3)
  have "dropWhile P (rev (dropWhile P (rev s))) = dropWhile P (a @ x # rev (dropWhile P (rev r)))"
    by (simp add: left)
  also have "\<dots> = x # rev (dropWhile P (rev r))"
    using a x by (simp add: dropWhile_append2)
  finally have lhs: "dropWhile P (rev (dropWhile P (rev s))) = x # rev (dropWhile P (rev r))" .
  have "dropWhile P s = x # r"
    using a x by (simp add: s dropWhile_append2)
  then have "rev (dropWhile P (rev (dropWhile P s))) = x # rev (dropWhile P (rev r))"
    using x by (simp add: dropWhile_append3)
  with lhs show ?thesis by simp
qed

lemma trim_empty_iff: "trim s = [] \<longleftrightarrow> (\<forall>c \<in> set s. is_space c)"
proof
  assume "trim s = []"
  then have all: "\<forall>c \<in> set (dropWhile is_space s). is_space c"
    by (simp add: trim_def)
  have "dropWhile is_space s = []"
  proof (rule ccontr)
    assume ne: "dropWhile is_space s \<noteq> []"
    then have "\<not> is_space (hd (dropWhile is_space s))" by (rule hd_dropWhile)
    moreover have "hd (dropWhile is_space s) \<in> set (dropWhile is_space s)" using ne by simp
    ultimately show False using all by blast
  qed
  then show "\<forall>c \<in> set s. is_space c" by simp
next
  assume "\<forall>c \<in> set s. is_space c"
  then have d: "dropWhile is_space s = []" by simp
  show "trim s = []" unfolding trim_def d by simp
qed

lemma left_trimmed_empty_iff: "dropWhile is_space s = [] \<longleftrightarrow> trim s = []"
  by (simp add: trim_empty_iff)

lemma right_trimmed_empty_iff: "rev (dropWhile is_space (rev s)) = [] \<longleftrightarrow> trim s = []"
  by (simp add: trim_empty_iff)

lemma trim_left_trimmed: "trim (dropWhile is_space s) = trim s"
  by (simp add: trim_def)

lemma trim_right_trimmed: "trim (rev (dropWhile is_space (rev s))) = trim s"
proof -
  have "trim (rev (dropWhile is_space (rev s)))
      = rev (dropWhile is_space (rev (dropWhile is_space (rev (dropWhile is_space (rev s))))))"
    by (simp add: trim_def)
  also have "\<dots> = rev (dropWhile is_space (rev (rev (dropWhile is_space (rev (dropWhile is_space s))))))"
    by (simp only: dropWhile_rev_dropWhile)
  also have "\<dots> = trim s"
    by (simp add: trim_def)
  finally show ?thesis .
qed

text \<open>
  What \<open>parseCookies\<close> does with a segment that has no \<^verbatim>\<open>=\<close> and with one that has
  exactly one: the first is dropped; the second gives the trimmed name and value, and
  is dropped when either is empty after trimming.
\<close>

lemma cookie_of_pair_without_equals:
  assumes "CHR ''='' \<notin> set seg"
  shows "cookie_of_pair seg = []"
proof -
  have "CHR ''='' \<notin> set (trim seg)"
    using assms by (auto simp: trim_def dest!: set_dropWhileD)
  then show ?thesis
    by (simp add: cookie_of_pair_def split_on_no_separator)
qed

lemma cookie_of_pair_one_equals:
  assumes "CHR ''='' \<notin> set n" and "CHR ''='' \<notin> set v"
  shows "cookie_of_pair (n @ CHR ''='' # v)
       = (if trim n \<noteq> [] \<and> trim v \<noteq> [] then [make_cookie n v] else [])"
proof -
  let ?n = "dropWhile is_space n"
  let ?v = "rev (dropWhile is_space (rev v))"
  have n: "CHR ''='' \<notin> set ?n" using assms(1) by (auto dest: set_dropWhileD)
  have v: "CHR ''='' \<notin> set ?v" using assms(2) by (auto dest: set_dropWhileD)
  have "split_on CHR ''='' (trim (n @ CHR ''='' # v)) = [?n, ?v]"
    using n v by (simp add: trim_around equals_is_no_space split_on_at_separator
        split_on_no_separator)
  moreover have "make_cookie ?n ?v = make_cookie n v"
    by (simp add: make_cookie_def trim_left_trimmed trim_right_trimmed)
  ultimately show ?thesis
    using left_trimmed_empty_iff [of n] right_trimmed_empty_iff [of v]
    by (simp add: cookie_of_pair_def)
qed

lemma parseCookies_segments:
  "parseCookies s = concat (map cookie_of_pair (split_on CHR '';'' s))"
  by (simp add: parseCookies_def)

text \<open>
  C3. The code splits a segment at every \<^verbatim>\<open>=\<close> and keeps the first two pieces, so a
  value that contains \<^verbatim>\<open>=\<close> is cut at its first \<^verbatim>\<open>=\<close>: the header \<^verbatim>\<open>sid=abc==\<close> gives the
  value \<^verbatim>\<open>abc\<close>, where a split at the first \<^verbatim>\<open>=\<close> gives \<^verbatim>\<open>abc==\<close>.
\<close>

theorem parseCookies_cuts_value_at_second_equals:
  "parseCookies ''sid=abc=='' = [make_cookie ''sid'' ''abc'']
   \<and> c_value (make_cookie ''sid'' ''abc'') = ''abc''
   \<and> parseCookies ''sid=abc=='' \<noteq> [make_cookie ''sid'' ''abc=='']"
  by code_simp



section \<open>Properties of main\<close>

lemma andThen_call:
  "andThen (call ev op) f (w, tr)
     = (case fst (op w) of
          Inl e \<Rightarrow> Some (Inl e, (snd (op w), tr @ [ev]))
        | Inr v \<Rightarrow> f v (snd (op w), tr @ [ev]))"
  by (simp add: andThen_def call_result)

lemma login_trace:
  "\<exists>r w' evs. login api email password (w, tr) = Some (r, (w', tr @ Goto login_url # evs))"
  by (simp add: login_def andThen_call call_result split: sum.splits)

lemma retry_from_first_event:
  assumes fn: "\<And>w tr. \<exists>r w' evs. fn (w, tr) = Some (r, (w', tr @ ev0 # evs))"
    and "int i < n"
  shows "\<exists>r w' evs revs. retry_from fn n d i (w, tr) = Some (r, (w', tr @ ev0 # evs), revs)"
  using assms(2)
proof (induction "nat (n - int i)" arbitrary: i w tr)
  case 0
  then show ?case by simp
next
  case (Suc m)
  from fn [of w tr] obtain r1 w1 evs1 where f: "fn (w, tr) = Some (r1, (w1, tr @ ev0 # evs1))"
    by blast
  show ?case
  proof (cases r1)
    case (Inr v)
    with f Suc.prems show ?thesis
      by (subst retry_from.simps) simp
  next
    case (Inl e)
    show ?thesis
    proof (cases "int i = n - 1")
      case True
      with f Inl Suc.prems show ?thesis
        by (subst retry_from.simps) simp
    next
      case False
      with Suc.prems have lt: "int (Suc i) < n" by simp
      have m: "m = nat (n - int (Suc i))" using Suc.hyps(2) by simp
      from Suc.hyps(1) [OF m lt, of w1 "tr @ ev0 # evs1"]
      obtain r2 w2 evs2 revs2 where
        "retry_from fn n d (Suc i) (w1, tr @ ev0 # evs1)
           = Some (r2, (w2, (tr @ ev0 # evs1) @ ev0 # evs2), revs2)"
        by blast
      with f Inl False Suc.prems show ?thesis
        by (subst retry_from.simps) simp
    qed
  qed
qed

lemma await_retry_login_trace:
  "\<exists>r w' evs. await_retry (login api email password) (w, tr)
     = Some (r, (w', tr @ Goto login_url # evs))"
proof -
  have "int 0 < 3" by simp
  from retry_from_first_event [where fn = "login api email password" and ?ev0.0 = "Goto login_url"
      and i = 0 and n = 3 and d = 1000 and w = w and tr = tr, OF login_trace this]
  obtain r w' evs revs where
    "retry_from (login api email password) 3 1000 0 (w, tr)
       = Some (r, (w', tr @ Goto login_url # evs), revs)"
    by auto
  then show ?thesis
    by (cases r) (simp_all add: await_retry_def retry_def)
qed

lemma login_or_throw_without_credentials:
  assumes "\<not> (truthy (LINKTREE_EMAIL cfg) \<and> truthy (LINKTREE_PASSWORD cfg))"
  shows "login_or_throw cfg api msg s = Some (Inl (JsError ''Error'' msg), s)"
  using assms
  by (cases "LINKTREE_EMAIL cfg"; cases "LINKTREE_PASSWORD cfg")
     (auto simp: login_or_throw_def throw_def)

lemma login_or_throw_with_credentials:
  assumes "truthy (LINKTREE_EMAIL cfg) \<and> truthy (LINKTREE_PASSWORD cfg)"
  shows "\<exists>email password. LINKTREE_EMAIL cfg = Some email \<and> LINKTREE_PASSWORD cfg = Some password
           \<and> login_or_throw cfg api msg s = await_retry (login api email password) s"
  using assms
  by (cases "LINKTREE_EMAIL cfg"; cases "LINKTREE_PASSWORD cfg")
     (auto simp: login_or_throw_def)

text \<open>What a failure of the cookie path is, in terms of the calls it makes.\<close>

lemma cookie_auth_failure:
  assumes "(\<exists>e w1. addCookies api (parseCookies c) w = (Inl e, w1))
         \<or> (\<exists>w1 e w2. addCookies api (parseCookies c) w = (Inr (), w1)
               \<and> goto api admin_url w1 = (Inl e, w2))
         \<or> (\<exists>w1 w2. addCookies api (parseCookies c) w = (Inr (), w1)
               \<and> goto api admin_url w1 = (Inr (), w2)
               \<and> js_includes ''/login'' (page_url api w2))"
  shows "\<exists>e w' evs. cookie_auth api c (w, tr) = Some (Inl e, (w', tr @ evs))
           \<and> Goto login_url \<notin> set evs"
proof -
  have neq: "admin_url \<noteq> login_url"
    by (simp add: admin_url_def login_url_def)
  from assms consider
      (inject) e w1 where "addCookies api (parseCookies c) w = (Inl e, w1)"
    | (navigate) w1 e w2 where "addCookies api (parseCookies c) w = (Inr (), w1)"
        "goto api admin_url w1 = (Inl e, w2)"
    | (redirect) w1 w2 where "addCookies api (parseCookies c) w = (Inr (), w1)"
        "goto api admin_url w1 = (Inr (), w2)" "js_includes ''/login'' (page_url api w2)"
    by blast
  then show ?thesis
  proof cases
    case inject
    then have "cookie_auth api c (w, tr)
        = Some (Inl e, (w1, tr @ [AddCookies (parseCookies c)]))"
      by (simp add: cookie_auth_def andThen_call)
    then show ?thesis by auto
  next
    case navigate
    then have "cookie_auth api c (w, tr)
        = Some (Inl e, (w2, tr @ [AddCookies (parseCookies c), Goto admin_url]))"
      by (simp add: cookie_auth_def andThen_call)
    with neq show ?thesis by auto
  next
    case redirect
    then have "cookie_auth api c (w, tr)
        = Some (Inl (JsError ''Error'' ''Cookie authentication failed - redirected to login''),
            (w2, tr @ [AddCookies (parseCookies c), Goto admin_url]))"
      by (simp add: cookie_auth_def andThen_call throw_def)
    with neq show ?thesis by auto
  qed
qed

lemma main_after_page_creation:
  assumes "truthy (WEBHOOK_URL cfg)"
    and "launch api w = (Inr (), w1)"
    and "newContext api w1 = (Inr (), w2)"
    and "newPage api w2 = (Inr (), w3)"
  shows "main cfg api (w, tr)
     = try_finally (pipeline cfg api (getJSTDate api w)) (call Close (close api))
         (w3, tr @ [Launch, NewContext, NewPage])"
  using assms by (simp add: main_def andThen_call)

lemma cookie_failure_enters_fallback:
  assumes "LT_COOKIE cfg = Some c" and "c \<noteq> []"
    and "(\<exists>e w1. addCookies api (parseCookies c) w = (Inl e, w1))
       \<or> (\<exists>w1 e w2. addCookies api (parseCookies c) w = (Inr (), w1)
             \<and> goto api admin_url w1 = (Inl e, w2))
       \<or> (\<exists>w1 w2. addCookies api (parseCookies c) w = (Inr (), w1)
             \<and> goto api admin_url w1 = (Inr (), w2)
             \<and> js_includes ''/login'' (page_url api w2))"
  shows "\<exists>w1 evs1. authenticate cfg api (w, tr)
      = login_or_throw cfg api
          ''Cookie authentication failed and no login credentials available'' (w1, tr @ evs1)
      \<and> Goto login_url \<notin> set evs1"
proof -
  from cookie_auth_failure [OF assms(3), of tr]
  obtain e w1 evs1 where fail: "cookie_auth api c (w, tr) = Some (Inl e, (w1, tr @ evs1))"
    and quiet: "Goto login_url \<notin> set evs1"
    by blast
  have "authenticate cfg api (w, tr)
      = login_or_throw cfg api
          ''Cookie authentication failed and no login credentials available'' (w1, tr @ evs1)"
    using assms(1,2) fail by (simp add: authenticate_def)
  with quiet show ?thesis by blast
qed

lemma pipeline_authentication_error:
  assumes "authenticate cfg api s = Some (Inl e, s')"
  shows "pipeline cfg api today s = Some (Inl e, s')"
  using assms by (simp add: pipeline_def andThen_def)

lemma try_finally_close_succeeds:
  assumes "body s = Some (r, (w1, tr1))" and "close api w1 = (Inr (), w2)"
  shows "try_finally body (call Close (close api)) s = Some (r, (w2, tr1 @ [Close]))"
  using assms by (simp add: try_finally_def call_result)

text \<open>
  C10. With a non-empty cookie, whatever fails in the cookie path (injecting the parsed
  cookies, the navigation to the dashboard, or the check that finds \<^verbatim>\<open>/login\<close> in the
  address; parsing the cookie raises no error on any string), authentication falls
  back: without both credentials it raises
  \<^verbatim>\<open>Cookie authentication failed and no login credentials available\<close> and never
  opens the login page; with both it returns what the login under \<open>retry\<close> returns, and
  the login page is opened. In a run that reached authentication in this way without
  credentials, and whose \<^verbatim>\<open>browser.close()\<close> succeeds, \<^verbatim>\<open>main\<close> fails with that error.
\<close>

theorem cookie_failure_falls_back:
  assumes "LT_COOKIE cfg = Some c" and "c \<noteq> []"
    and "(\<exists>e w1. addCookies api (parseCookies c) w = (Inl e, w1))
       \<or> (\<exists>w1 e w2. addCookies api (parseCookies c) w = (Inr (), w1)
             \<and> goto api admin_url w1 = (Inl e, w2))
       \<or> (\<exists>w1 w2. addCookies api (parseCookies c) w = (Inr (), w1)
             \<and> goto api admin_url w1 = (Inr (), w2)
             \<and> js_includes ''/login'' (page_url api w2))"
  shows "(\<not> (truthy (LINKTREE_EMAIL cfg) \<and> truthy (LINKTREE_PASSWORD cfg)) \<longrightarrow>
            (\<exists>w' evs. authenticate cfg api (w, tr)
                = Some (Inl (JsError ''Error''
                    ''Cookie authentication failed and no login credentials available''),
                    (w', tr @ evs))
              \<and> Goto login_url \<notin> set evs))
       \<and> (truthy (LINKTREE_EMAIL cfg) \<and> truthy (LINKTREE_PASSWORD cfg) \<longrightarrow>
            (\<exists>email password s1 r w' evs.
                LINKTREE_EMAIL cfg = Some email \<and> LINKTREE_PASSWORD cfg = Some password
              \<and> authenticate cfg api (w, tr) = await_retry (login api email password) s1
              \<and> authenticate cfg api (w, tr) = Some (r, (w', tr @ evs))
              \<and> Goto login_url \<in> set evs))
       \<and> (\<not> (truthy (LINKTREE_EMAIL cfg) \<and> truthy (LINKTREE_PASSWORD cfg))
            \<and> truthy (WEBHOOK_URL cfg)
            \<and> launch api w0 = (Inr (), wa) \<and> newContext api wa = (Inr (), wb)
            \<and> newPage api wb = (Inr (), w)
            \<and> (\<forall>x. \<exists>y. close api x = (Inr (), y)) \<longrightarrow>
            (\<exists>w' tr'. main cfg api (w0, tr0)
                = Some (Inl (JsError ''Error''
                    ''Cookie authentication failed and no login credentials available''),
                    (w', tr'))
              \<and> last tr' = Close))"
proof -
  have without: "\<exists>w' evs. authenticate cfg api (w, tr)
                = Some (Inl (JsError ''Error''
                    ''Cookie authentication failed and no login credentials available''),
                    (w', tr @ evs))
              \<and> Goto login_url \<notin> set evs"
    if none: "\<not> (truthy (LINKTREE_EMAIL cfg) \<and> truthy (LINKTREE_PASSWORD cfg))" for tr
  proof -
    from cookie_failure_enters_fallback [OF assms, of tr]
    obtain w1 evs1 where auth: "authenticate cfg api (w, tr)
      = login_or_throw cfg api
          ''Cookie authentication failed and no login credentials available'' (w1, tr @ evs1)"
      and quiet: "Goto login_url \<notin> set evs1"
      by blast
    from none have "authenticate cfg api (w, tr)
        = Some (Inl (JsError ''Error''
            ''Cookie authentication failed and no login credentials available''),
            (w1, tr @ evs1))"
      using auth by (simp add: login_or_throw_without_credentials)
    with quiet show ?thesis by blast
  qed
  have "with": "\<exists>email password s1 r w' evs.
                LINKTREE_EMAIL cfg = Some email \<and> LINKTREE_PASSWORD cfg = Some password
              \<and> authenticate cfg api (w, tr) = await_retry (login api email password) s1
              \<and> authenticate cfg api (w, tr) = Some (r, (w', tr @ evs))
              \<and> Goto login_url \<in> set evs"
    if both: "truthy (LINKTREE_EMAIL cfg) \<and> truthy (LINKTREE_PASSWORD cfg)"
  proof -
    from cookie_failure_enters_fallback [OF assms, of tr]
    obtain w1 evs1 where auth: "authenticate cfg api (w, tr)
      = login_or_throw cfg api
          ''Cookie authentication failed and no login credentials available'' (w1, tr @ evs1)"
      by blast
    from login_or_throw_with_credentials [OF both]
    obtain email password where creds: "LINKTREE_EMAIL cfg = Some email"
        "LINKTREE_PASSWORD cfg = Some password"
      and step: "login_or_throw cfg api
          ''Cookie authentication failed and no login credentials available'' (w1, tr @ evs1)
        = await_retry (login api email password) (w1, tr @ evs1)"
      by blast
    from await_retry_login_trace [of api email password w1 "tr @ evs1"]
    obtain r w' evs where run: "await_retry (login api email password) (w1, tr @ evs1)
        = Some (r, (w', (tr @ evs1) @ Goto login_url # evs))"
      by blast
    have "authenticate cfg api (w, tr) = await_retry (login api email password) (w1, tr @ evs1)"
      using auth step by simp
    moreover have "authenticate cfg api (w, tr)
        = Some (r, (w', tr @ (evs1 @ Goto login_url # evs)))"
      using auth step run by simp
    moreover have "Goto login_url \<in> set (evs1 @ Goto login_url # evs)" by simp
    ultimately show ?thesis
      using creds by blast
  qed
  have run: "\<exists>w' tr'. main cfg api (w0, tr0)
                = Some (Inl (JsError ''Error''
                    ''Cookie authentication failed and no login credentials available''),
                    (w', tr'))
              \<and> last tr' = Close"
    if a: "\<not> (truthy (LINKTREE_EMAIL cfg) \<and> truthy (LINKTREE_PASSWORD cfg))
            \<and> truthy (WEBHOOK_URL cfg)
            \<and> launch api w0 = (Inr (), wa) \<and> newContext api wa = (Inr (), wb)
            \<and> newPage api wb = (Inr (), w)
            \<and> (\<forall>x. \<exists>y. close api x = (Inr (), y))"
  proof -
    from a have none: "\<not> (truthy (LINKTREE_EMAIL cfg) \<and> truthy (LINKTREE_PASSWORD cfg))"
      and url: "truthy (WEBHOOK_URL cfg)" and l: "launch api w0 = (Inr (), wa)"
      and c: "newContext api wa = (Inr (), wb)" and p: "newPage api wb = (Inr (), w)"
      and cl: "\<forall>x. \<exists>y. close api x = (Inr (), y)"
      by blast+
    from without [OF none, of "tr0 @ [Launch, NewContext, NewPage]"]
    obtain w1 evs where auth: "authenticate cfg api (w, tr0 @ [Launch, NewContext, NewPage])
        = Some (Inl (JsError ''Error''
            ''Cookie authentication failed and no login credentials available''),
            (w1, (tr0 @ [Launch, NewContext, NewPage]) @ evs))"
      by blast
    from cl obtain w2 where "close api w1 = (Inr (), w2)" by blast
    from try_finally_close_succeeds
      [where body = "pipeline cfg api (getJSTDate api w0)"
         and s = "(w, tr0 @ [Launch, NewContext, NewPage])",
       OF pipeline_authentication_error [OF auth, of "getJSTDate api w0"] this]
    have "main cfg api (w0, tr0)
        = Some (Inl (JsError ''Error''
            ''Cookie authentication failed and no login credentials available''),
            (w2, ((tr0 @ [Launch, NewContext, NewPage]) @ evs) @ [Close]))"
      using main_after_page_creation [OF url l c p, of tr0] by simp
    moreover have "last (((tr0 @ [Launch, NewContext, NewPage]) @ evs) @ [Close]) = Close"
      by simp
    ultimately show ?thesis by blast
  qed
  from without [of tr] "with" run show ?thesis by blast
qed

theorem cookie_failure_falls_back_witness:
  "authenticate cookie_only_config
       (scripted_host (fails_at (Goto admin_url) ''net::ERR_FAILED'') (script []) []
          empty_document ok_response) (0, [])
     = Some (Inl (JsError ''Error''
                ''Cookie authentication failed and no login credentials available''),
             (0, [AddCookies (parseCookies ''session=abc''), Goto admin_url]))
   \<and> authenticate full_config
       (scripted_host (fails_at (Goto admin_url) ''net::ERR_FAILED'') (script []) []
          empty_document ok_response) (0, [])
     = Some (Inr (),
             (0, [AddCookies (parseCookies ''session=abc''), Goto admin_url, Goto login_url,
                  Fill ''input[type=\"email\"]'' ''me@example.com'',
                  Fill ''input[type=\"password\"]'' ''secret'',
                  Click ''button[type=\"submit\"]'', WaitForURL ''**/admin**'']))
   \<and> main cookie_only_config
       (scripted_host (fails_at (Goto admin_url) ''net::ERR_FAILED'') (script []) []
          empty_document ok_response) (0, [])
     = Some (Inl (JsError ''Error''
                ''Cookie authentication failed and no login credentials available''),
             (0, [Launch, NewContext, NewPage,
                  AddCookies (parseCookies ''session=abc''), Goto admin_url, Close]))"
proof -
  let ?api = "scripted_host (fails_at (Goto admin_url) ''net::ERR_FAILED'') (script []) []
          empty_document ok_response"
  have failure: "(\<exists>e w1. addCookies ?api (parseCookies ''session=abc'') 0 = (Inl e, w1))
       \<or> (\<exists>w1 e w2. addCookies ?api (parseCookies ''session=abc'') 0 = (Inr (), w1)
             \<and> goto ?api admin_url w1 = (Inl e, w2))
       \<or> (\<exists>w1 w2. addCookies ?api (parseCookies ''session=abc'') 0 = (Inr (), w1)
             \<and> goto ?api admin_url w1 = (Inr (), w2)
             \<and> js_includes ''/login'' (page_url ?api w2))"
    by (simp add: scripted_host_def fails_at_def answer_def)
  have c1: "LT_COOKIE cookie_only_config = Some ''session=abc''"
    and c2: "LT_COOKIE full_config = Some ''session=abc''"
    and ne: "''session=abc'' \<noteq> []"
    by (simp_all add: cookie_only_config_def full_config_def)
  have none: "\<not> (truthy (LINKTREE_EMAIL cookie_only_config)
      \<and> truthy (LINKTREE_PASSWORD cookie_only_config))"
    by (simp add: cookie_only_config_def)
  have both: "truthy (LINKTREE_EMAIL full_config) \<and> truthy (LINKTREE_PASSWORD full_config)"
    by (simp add: full_config_def)
  have neq: "admin_url \<noteq> login_url"
    by (simp add: admin_url_def login_url_def)
  have first: "authenticate cookie_only_config ?api (0, [])
     = Some (Inl (JsError ''Error''
                ''Cookie authentication failed and no login credentials available''),
             (0, [AddCookies (parseCookies ''session=abc''), Goto admin_url]))"
    by (simp add: authenticate_def cookie_auth_def login_or_throw_def andThen_call
        scripted_host_def fails_at_def answer_def throw_def cookie_only_config_def)
  have second: "authenticate full_config ?api (0, [])
     = Some (Inr (),
             (0, [AddCookies (parseCookies ''session=abc''), Goto admin_url, Goto login_url,
                  Fill ''input[type=\"email\"]'' ''me@example.com'',
                  Fill ''input[type=\"password\"]'' ''secret'',
                  Click ''button[type=\"submit\"]'', WaitForURL ''**/admin**'']))"
    using neq [symmetric]
    by (simp add: authenticate_def cookie_auth_def login_or_throw_def andThen_call call_result
        await_retry_def retry_def retry_from.simps login_def
        scripted_host_def fails_at_def answer_def throw_def full_config_def)
  have url: "truthy (WEBHOOK_URL cookie_only_config)"
    by (simp add: cookie_only_config_def)
  have l: "launch ?api 0 = (Inr (), 0)" and c: "newContext ?api 0 = (Inr (), 0)"
    and p: "newPage ?api 0 = (Inr (), 0)" and cl: "\<forall>x. \<exists>y. close ?api x = (Inr (), y)"
    by (simp_all add: scripted_host_def fails_at_def answer_def)
  have auth: "authenticate cookie_only_config ?api (0, [Launch, NewContext, NewPage])
     = Some (Inl (JsError ''Error''
                ''Cookie authentication failed and no login credentials available''),
             (0, [Launch, NewContext, NewPage,
                  AddCookies (parseCookies ''session=abc''), Goto admin_url]))"
    by (simp add: authenticate_def cookie_auth_def login_or_throw_def andThen_call
        scripted_host_def fails_at_def answer_def throw_def cookie_only_config_def)
  have "close ?api 0 = (Inr (), 0)"
    by (simp add: scripted_host_def fails_at_def answer_def)
  from try_finally_close_succeeds
      [where body = "pipeline cookie_only_config ?api (getJSTDate ?api 0)"
         and s = "(0, [Launch, NewContext, NewPage])",
       OF pipeline_authentication_error [OF auth, of "getJSTDate ?api 0"] this]
  have third: "main cookie_only_config ?api (0, [])
     = Some (Inl (JsError ''Error''
                ''Cookie authentication failed and no login credentials available''),
             (0, [Launch, NewContext, NewPage,
                  AddCookies (parseCookies ''session=abc''), Goto admin_url, Close]))"
    using main_after_page_creation [OF url l c p, of "[]"] by simp
  from cookie_failure_falls_back [OF c1 ne failure, where tr = "[]" and ?w0.0 = 0
      and wa = 0 and wb = 0 and ?tr0.0 = "[]"]
    cookie_failure_falls_back [OF c2 ne failure, where tr = "[]"] none both first second third
    url l c p cl
  show ?thesis by simp
qed

lemma try_finally_close_last:
  assumes "try_finally body (call Close op) s = Some (r, (w', tr'))"
  shows "tr' \<noteq> [] \<and> last tr' = Close"
proof -
  from assms obtain r0 w0 tr0 where "body s = Some (r0, (w0, tr0))"
    and fin: "(case call Close op (w0, tr0) of
             None \<Rightarrow> None
           | Some (Inl e, s'') \<Rightarrow> Some (Inl e, s'')
           | Some (Inr u, s'') \<Rightarrow> Some (r0, s'')) = Some (r, (w', tr'))"
    by (auto simp: try_finally_def split: option.splits)
  from fin have "tr' = tr0 @ [Close]"
    by (cases "fst (op w0)") (simp_all add: call_result)
  then show ?thesis by simp
qed

text \<open>
  C8. The browser is closed at the end of every run in which the page was created:
  the last call of such a run is \<^verbatim>\<open>browser.close()\<close>. When creating the context or the
  page fails, the error leaves \<^verbatim>\<open>main\<close> with the browser launched and never closed: the
  two calls stand before the \<^verbatim>\<open>try\<close> whose \<^verbatim>\<open>finally\<close> closes it.
\<close>

theorem browser_closed_only_after_page_creation:
  assumes "truthy (WEBHOOK_URL cfg)" and "launch api w = (Inr (), w1)"
  shows "(newContext api w1 = (Inr (), w2) \<and> newPage api w2 = (Inr (), w3)
            \<and> main cfg api (w, tr) = Some (r, (w', tr'))
          \<longrightarrow> tr' \<noteq> [] \<and> last tr' = Close)
       \<and> (newContext api w1 = (Inl e, w2)
          \<longrightarrow> main cfg api (w, tr) = Some (Inl e, (w2, tr @ [Launch, NewContext])))
       \<and> (newContext api w1 = (Inr (), w2) \<and> newPage api w2 = (Inl e, w3)
          \<longrightarrow> main cfg api (w, tr) = Some (Inl e, (w3, tr @ [Launch, NewContext, NewPage])))"
proof -
  have closed: "tr' \<noteq> [] \<and> last tr' = Close"
    if a: "newContext api w1 = (Inr (), w2) \<and> newPage api w2 = (Inr (), w3)
            \<and> main cfg api (w, tr) = Some (r, (w', tr'))"
  proof -
    from a have "try_finally (pipeline cfg api (getJSTDate api w)) (call Close (close api))
         (w3, tr @ [Launch, NewContext, NewPage]) = Some (r, (w', tr'))"
      using main_after_page_creation [OF assms, of w2 w3 tr] by simp
    then show ?thesis
      by (rule try_finally_close_last)
  qed
  have no_context: "main cfg api (w, tr) = Some (Inl e, (w2, tr @ [Launch, NewContext]))"
    if "newContext api w1 = (Inl e, w2)"
    using that assms by (simp add: main_def andThen_call)
  have no_page: "main cfg api (w, tr) = Some (Inl e, (w3, tr @ [Launch, NewContext, NewPage]))"
    if "newContext api w1 = (Inr (), w2) \<and> newPage api w2 = (Inl e, w3)"
    using that assms by (simp add: main_def andThen_call)
  from closed no_context no_page show ?thesis by blast
qed

theorem browser_closed_only_after_page_creation_witness:
  "main full_config
       (scripted_host (fails_at NewContext ''Target closed'') (script []) []
          empty_document ok_response) (0, [])
     = Some (Inl (JsError ''Error'' ''Target closed''), (0, [Launch, NewContext]))
   \<and> Close \<notin> set [Launch, NewContext]
   \<and> main full_config
       (scripted_host (fails_at NewPage ''Target closed'') (script []) []
          empty_document ok_response) (0, [])
     = Some (Inl (JsError ''Error'' ''Target closed''), (0, [Launch, NewContext, NewPage]))
   \<and> Close \<notin> set [Launch, NewContext, NewPage]"
proof -
  have url: "truthy (WEBHOOK_URL full_config)"
    by (simp add: full_config_def)
  have l1: "launch (scripted_host (fails_at NewContext ''Target closed'') (script []) []
          empty_document ok_response) 0 = (Inr (), 0)"
    and c1: "newContext (scripted_host (fails_at NewContext ''Target closed'') (script []) []
          empty_document ok_response) 0 = (Inl (JsError ''Error'' ''Target closed''), 0)"
    and l2: "launch (scripted_host (fails_at NewPage ''Target closed'') (script []) []
          empty_document ok_response) 0 = (Inr (), 0)"
    and c2: "newContext (scripted_host (fails_at NewPage ''Target closed'') (script []) []
          empty_document ok_response) 0 = (Inr (), 0)"
    and p2: "newPage (scripted_host (fails_at NewPage ''Target closed'') (script []) []
          empty_document ok_response) 0 = (Inl (JsError ''Error'' ''Target closed''), 0)"
    by (simp_all add: scripted_host_def fails_at_def answer_def)
  from browser_closed_only_after_page_creation [OF url l1, where ?w2.0 = 0
      and e = "JsError ''Error'' ''Target closed''" and tr = "[]"]
    browser_closed_only_after_page_creation [OF url l2, where ?w2.0 = 0 and ?w3.0 = 0
      and e = "JsError ''Error'' ''Target closed''" and tr = "[]"]
    c1 c2 p2
  show ?thesis by simp
qed

text \<open>
  The end-to-end scenario of a failing delivery: the cookie is accepted, the page has
  the heights 100, 200, 200, and the webhook answers 500 with the body \<^verbatim>\<open>error\<close>. The
  run fails with the webhook error, after one \<^verbatim>\<open>fetch\<close>, and the browser is closed.
\<close>

lemma run_with_failing_webhook:
  "main cookie_only_config
       (scripted_host no_failure (script [100, 200, 200]) ''https://linktr.ee/admin/links''
          two_card_document server_error_response) (0, [])
     = Some (Inl (JsError ''Error'' ''Webhook failed: 500 error''),
         (3, [Launch, NewContext, NewPage,
              AddCookies (parseCookies ''session=abc''), Goto admin_url,
              ScrollHeight, ScrollToBottom, WaitForTimeout 2000, ScrollHeight,
              ScrollToBottom, WaitForTimeout 2000, ScrollHeight,
              Evaluate,
              Fetch \<lparr>req_url = Some ''https://hooks.example/ingest'', req_method = ''POST'',
                      req_headers = [(''Content-Type'', ''application/json'')],
                      req_body = ''{}''\<rparr>,
              Close]))"
proof -
  let ?api = "scripted_host no_failure (script [100, 200, 200]) ''https://linktr.ee/admin/links''
          two_card_document server_error_response"
  have auth: "authenticate cookie_only_config ?api (0, [Launch, NewContext, NewPage])
      = Some (Inr (), (0, [Launch, NewContext, NewPage,
              AddCookies (parseCookies ''session=abc''), Goto admin_url]))"
    by (simp add: authenticate_def cookie_auth_def andThen_call starts_with_def
        scripted_host_def no_failure_def answer_def return_def cookie_only_config_def)
  have load: "load_all_links ?api (0, tr)
      = Some (Inr (), (3, tr @ [ScrollHeight, ScrollToBottom, WaitForTimeout 2000, ScrollHeight,
              ScrollToBottom, WaitForTimeout 2000, ScrollHeight]))" for tr
    by (simp add: load_all_links_def andThen_call call_result scroll_loop.simps
        scripted_host_def no_failure_def answer_def script_def)
  have scroll: "await_retry (load_all_links ?api) (0, tr)
      = Some (Inr (), (3, tr @ [ScrollHeight, ScrollToBottom, WaitForTimeout 2000, ScrollHeight,
              ScrollToBottom, WaitForTimeout 2000, ScrollHeight]))" for tr
    by (simp add: await_retry_def retry_def retry_from.simps load)
  have doc: "call Evaluate (page_document ?api) (3, tr) = Some (Inr two_card_document, (3, tr @ [Evaluate]))"
    for tr
    by (simp add: call_result scripted_host_def no_failure_def answer_def)
  have send: "sendToWebhook cookie_only_config ?api d (3, tr)
      = Some (Inl (JsError ''Error'' ''Webhook failed: 500 error''),
          (3, tr @ [Fetch \<lparr>req_url = Some ''https://hooks.example/ingest'', req_method = ''POST'',
                      req_headers = [(''Content-Type'', ''application/json'')],
                      req_body = ''{}''\<rparr>]))" for d tr
    by (simp add: sendToWebhook_def andThen_call webhook_request_def throw_def ok_def
        show_nat.simps scripted_host_def no_failure_def answer_def server_error_response_def
        cookie_only_config_def)
  have pipe: "pipeline cookie_only_config ?api today (0, [Launch, NewContext, NewPage])
      = Some (Inl (JsError ''Error'' ''Webhook failed: 500 error''),
         (3, [Launch, NewContext, NewPage,
              AddCookies (parseCookies ''session=abc''), Goto admin_url,
              ScrollHeight, ScrollToBottom, WaitForTimeout 2000, ScrollHeight,
              ScrollToBottom, WaitForTimeout 2000, ScrollHeight,
              Evaluate,
              Fetch \<lparr>req_url = Some ''https://hooks.example/ingest'', req_method = ''POST'',
                      req_headers = [(''Content-Type'', ''application/json'')],
                      req_body = ''{}''\<rparr>]))" for today
    by (simp add: pipeline_def andThen_def auth scroll doc send)
  have start: "main cookie_only_config ?api (0, [])
     = try_finally (pipeline cookie_only_config ?api (getJSTDate ?api 0)) (call Close (close ?api))
         (0, [] @ [Launch, NewContext, NewPage])"
    by (rule main_after_page_creation)
       (simp_all add: cookie_only_config_def scripted_host_def no_failure_def answer_def)
  have fin: "call Close (close ?api) (3, tr) = Some (Inr (), (3, tr @ [Close]))" for tr
    by (simp add: call_result scripted_host_def no_failure_def answer_def)
  show ?thesis
    by (simp add: start try_finally_def pipe fin)
qed

end
